theory Spec2Isabelle
  imports
    Complex_Main
    "HOL-Library.AList"
    "HOL-Library.Char_ord"
    "HOL-Library.List_Lexorder"
begin

section \<open>JavaScript values and collections\<close>

text \<open>
  The server keeps its state in module-level \<^verbatim>\<open>Map\<close>s and \<^verbatim>\<open>Set\<close>s. Both iterate in
  insertion order, so a \<^verbatim>\<open>Set<string>\<close> is a list without repetitions and a
  \<^verbatim>\<open>Map<string, V>\<close> an association list: \<^verbatim>\<open>get\<close> is \<^const>\<open>map_of\<close>, \<^verbatim>\<open>set\<close> is
  \<^const>\<open>AList.update\<close> (in place when the key exists, appended otherwise), \<^verbatim>\<open>delete\<close>
  is \<^const>\<open>AList.delete\<close>, \<^verbatim>\<open>keys()\<close> is \<^term>\<open>map fst\<close>, \<^verbatim>\<open>size\<close> is \<^const>\<open>length\<close>.
\<close>

definition set_add :: "'a \<Rightarrow> 'a list \<Rightarrow> 'a list" where
  "set_add x xs = (if x \<in> set xs then xs else xs @ [x])"

definition set_delete :: "'a \<Rightarrow> 'a list \<Rightarrow> 'a list" where
  "set_delete x xs = removeAll x xs"

text \<open>
  An optional string of the handshake or of the query of a request is \<^verbatim>\<open>undefined\<close>
  (\<^const>\<open>None\<close>) or a string. \<^verbatim>\<open>!x\<close> holds for \<^verbatim>\<open>undefined\<close> and for the empty string;
  \<open>truthy\<close> keeps the string of a field that passes the test.
\<close>

fun truthy :: "string option \<Rightarrow> string option" where
  "truthy None = None"
| "truthy (Some s) = (if s = [] then None else Some s)"

text \<open>
  A JavaScript string is a \<^typ>\<open>string\<close>: the bytes of an encoding that keeps ASCII
  characters as they are (UTF-8). The servers compare strings for equality, test them
  for emptiness, compare ISO time stamps (ASCII) and lowercase them.
  \<^verbatim>\<open>String.prototype.toLowerCase\<close> follows the Unicode case mapping and is not part of
  the servers: it is a parameter of the model.
\<close>

record builtins =
  toLowerCase :: "string \<Rightarrow> string"

text \<open>
  A value that a client sends as the argument of an event: what JSON can carry, and
  \<^verbatim>\<open>undefined\<close> for an argument or a property that is not there. An object lists its
  own properties, each name once.
\<close>

datatype js_value =
    JUndefined
  | JNull
  | JBool bool
  | JNumber rat
  | JString string
  | JArray "js_value list"
  | JObject "(string \<times> js_value) list"

text \<open>The test of \<^verbatim>\<open>if (x)\<close>: \<^verbatim>\<open>!x\<close> is its negation.\<close>

fun js_truthy :: "js_value \<Rightarrow> bool" where
  "js_truthy JUndefined = False"
| "js_truthy JNull = False"
| "js_truthy (JBool b) = b"
| "js_truthy (JNumber n) = (n \<noteq> 0)"
| "js_truthy (JString s) = (s \<noteq> [])"
| "js_truthy (JArray xs) = True"
| "js_truthy (JObject fs) = True"

text \<open>
  Reading the property \<^verbatim>\<open>to\<close> or \<^verbatim>\<open>body\<close> of a value other than \<^verbatim>\<open>undefined\<close> and
  \<^verbatim>\<open>null\<close>: an object has it or not; a boolean, number, string or array has no
  property of these names.
\<close>

fun get_prop :: "string \<Rightarrow> js_value \<Rightarrow> js_value" where
  "get_prop k (JObject fs) = (case map_of fs k of None \<Rightarrow> JUndefined | Some v \<Rightarrow> v)"
| "get_prop k v = JUndefined"

text \<open>The exception of a failed destructuring or of a call of what is not a function.\<close>

datatype js_error = TypeError

section \<open>Output of the handlers\<close>

record dm_msg =
  msg_from :: string
  msg_to :: string
  msg_body :: js_value
  msg_ts :: int

datatype payload =
    AddressPayload string
  | SnapshotPayload "string list"
  | DmPayload dm_msg

text \<open>
  What a handler does to the outside, in program order. The first argument of the socket
  actions is \<^verbatim>\<open>socket.id\<close>. \<open>BroadcastEmit\<close> is \<^verbatim>\<open>socket.broadcast.emit\<close> (everyone
  but that socket), \<open>IoEmit\<close> is \<^verbatim>\<open>io.emit\<close> (everyone), \<open>IoToEmit\<close> is
  \<^verbatim>\<open>io.to(id).emit\<close>, \<open>SocketEmit\<close> is \<^verbatim>\<open>socket.emit\<close>; \<open>SnapshotPayload\<close> lists the
  addresses of \<^verbatim>\<open>users\<close>, each with \<^verbatim>\<open>online: true\<close>. \<open>Uncaught\<close> is an exception
  that leaves a listener: the listener has stopped there, and what becomes of the
  process is the matter of the runtime.
\<close>

datatype action =
    SocketDisconnect string
  | BroadcastEmit string string payload
  | IoEmit string payload
  | IoToEmit string string payload
  | SocketEmit string string payload
  | SocketJoin string string
  | SocketLeave string string
  | ConsoleLog string "string list"
  | HttpStatus nat
  | Uncaught js_error

section \<open>Presence: \<^verbatim>\<open>addressToSockets\<close>\<close>

type_synonym presence = "(string \<times> string list) list"

text \<open>
  The presence block of the connection handler (the same text in both files): look the
  address up, create the set when there is none, add the socket id, broadcast
  \<^verbatim>\<open>presence:online\<close> when there was no entry, and send the snapshot to the new socket.
\<close>

definition register :: "string \<Rightarrow> string \<Rightarrow> presence \<Rightarrow> presence \<times> action list" where
  "register address sid m =
     (let sockets = map_of m address;
          isFirstConnection = (sockets = None);
          m1 = (case sockets of None \<Rightarrow> AList.update address [] m | Some _ \<Rightarrow> m);
          s1 = (case sockets of None \<Rightarrow> [] | Some s \<Rightarrow> s);
          m2 = AList.update address (set_add sid s1) m1
      in (m2,
          (if isFirstConnection
           then [ConsoleLog ''USER ONLINE:'' [address],
                 BroadcastEmit sid ''presence:online'' (AddressPayload address)]
           else [])))"

definition snapshot :: "string \<Rightarrow> presence \<Rightarrow> action" where
  "snapshot sid m = SocketEmit sid ''presence:snapshot'' (SnapshotPayload (map fst m))"

text \<open>
  The presence block of the disconnect handler: no entry, nothing happens (\<open>None\<close>: the
  handler has returned); otherwise the socket id leaves the set, and an empty set is
  removed from the map with a \<^verbatim>\<open>presence:offline\<close> to everyone.
\<close>

definition deregister ::
  "string \<Rightarrow> string \<Rightarrow> presence \<Rightarrow> (presence \<times> action list) option" where
  "deregister address sid m =
     (case map_of m address of
        None \<Rightarrow> None
      | Some sockets \<Rightarrow>
          (let sockets' = set_delete sid sockets;
               m1 = AList.update address sockets' m
           in if length sockets' = 0
              then Some (AList.delete address m1,
                         [ConsoleLog ''USER OFFLINE:'' [address],
                          IoEmit ''presence:offline'' (AddressPayload address)])
              else Some (m1, [])))"

section \<open>The signing server (\<^verbatim>\<open>src/unnamed/part_000\<close>)\<close>

definition SIWE_STATEMENT :: string where
  "SIWE_STATEMENT = ''Sign in to EVM RealTimeChat''"

definition SIWE_VERSION :: string where
  "SIWE_VERSION = ''1''"

record NonceChallenge =
  address :: string
  chainId :: int
  domain :: string
  uri :: string
  issuedAt :: string
  expirationTime :: string
  consumed :: bool

type_synonym nonces = "(string \<times> NonceChallenge) list"

text \<open>The two objects handed to \<^verbatim>\<open>ethers.verifyTypedData\<close> besides the type table.\<close>

record typed_domain =
  td_name :: string
  td_version :: string
  td_chainId :: int

record sign_in =
  si_domain :: string
  si_address :: string
  si_statement :: string
  si_uri :: string
  si_version :: string
  si_chainId :: int
  si_nonce :: string
  si_issuedAt :: string
  si_expirationTime :: string

text \<open>
  The \<^verbatim>\<open>ethers\<close> library is not part of the server: its two functions are parameters of
  the model, \<open>None\<close> when the call throws. \<open>getAddress\<close> checks and checksums an address,
  \<open>verifyTypedData\<close> recovers the signer of the typed data (the constant type table
  \<^verbatim>\<open>TYPE_DATA_TYPES\<close> is part of the function). The record holds all that the signing
  server calls and does not define: the built-in and the library.
\<close>

record ethers = builtins +
  getAddress :: "string \<Rightarrow> string option"
  verifyTypedData :: "typed_domain \<Rightarrow> sign_in \<Rightarrow> string \<Rightarrow> string option"

text \<open>\<^verbatim>\<open>socket.handshake.auth\<close>, every field optional as in the handler's cast.\<close>

record auth_domain =
  ad_name :: "string option"
  ad_version :: "string option"
  ad_chainId :: "int option"

record auth_message =
  am_nonce :: "string option"
  am_chainId :: "int option"
  am_issuedAt :: "string option"
  am_expirationTime :: "string option"

record auth_typedData =
  atd_domain :: "auth_domain option"
  atd_message :: "auth_message option"

record authPayload =
  auth_address :: "string option"
  auth_signature :: "string option"
  auth_typedData :: "auth_typedData option"

text \<open>\<^verbatim>\<open>authPayload.typedData?.message?.nonce\<close>\<close>

definition auth_nonce :: "authPayload \<Rightarrow> string option" where
  "auth_nonce p =
     (case auth_typedData p of
        None \<Rightarrow> None
      | Some td \<Rightarrow> (case atd_message td of None \<Rightarrow> None | Some m \<Rightarrow> am_nonce m))"

text \<open>The domain and message that the handler builds for the stored challenge.\<close>

definition build_domain :: "NonceChallenge \<Rightarrow> typed_domain" where
  "build_domain challenge =
     \<lparr>td_name = ''EVM RealTimeChat'', td_version = SIWE_VERSION,
      td_chainId = chainId challenge\<rparr>"

definition build_message :: "NonceChallenge \<Rightarrow> string \<Rightarrow> sign_in" where
  "build_message challenge nonce =
     \<lparr>si_domain = domain challenge, si_address = address challenge,
      si_statement = SIWE_STATEMENT, si_uri = uri challenge, si_version = SIWE_VERSION,
      si_chainId = chainId challenge, si_nonce = nonce,
      si_issuedAt = issuedAt challenge, si_expirationTime = expirationTime challenge\<rparr>"

text \<open>
  Each \<^verbatim>\<open>return socket.disconnect(true)\<close> of the connection handler, named after the
  check that takes it. The client sees the same close for all of them.
\<close>

datatype auth_error =
    MissingFields
  | InvalidAddress
  | NonceNotFound
  | NonceAlreadyConsumed
  | NonceExpired
  | IdentityMismatch
  | InvalidSignature
  | RecoveredMismatch

text \<open>
  The checks of the connection handler up to the end of the \<^verbatim>\<open>try\<close> block. \<open>now\<close> is
  \<^verbatim>\<open>new Date().toISOString()\<close>; the comparison with \<^verbatim>\<open>expirationTime\<close> is the one of
  strings. The result is the nonce map (changed only by the deletion of an expired
  entry) and either the check that failed or the lowercased address, its nonce and its
  challenge.
\<close>

definition authenticate ::
  "ethers \<Rightarrow> string \<Rightarrow> authPayload \<Rightarrow> nonces \<Rightarrow>
     nonces \<times> (auth_error + string \<times> string \<times> NonceChallenge)" where
  "authenticate eth now p nc =
     (case (truthy (auth_address p), truthy (auth_signature p), truthy (auth_nonce p)) of
        (Some addressRaw, Some signature, Some nonce) \<Rightarrow>
          (case getAddress eth addressRaw of
             None \<Rightarrow> (nc, Inl InvalidAddress)
           | Some checksummed \<Rightarrow>
               (let addr = toLowerCase eth checksummed in
                case map_of nc nonce of
                  None \<Rightarrow> (nc, Inl NonceNotFound)
                | Some challenge \<Rightarrow>
                    if consumed challenge then (nc, Inl NonceAlreadyConsumed)
                    else if expirationTime challenge \<le> now
                      then (AList.delete nonce nc, Inl NonceExpired)
                    else if address challenge \<noteq> addr
                      then (nc, Inl IdentityMismatch)
                    else
                      (case verifyTypedData eth (build_domain challenge)
                              (build_message challenge nonce) signature of
                         None \<Rightarrow> (nc, Inl InvalidSignature)
                       | Some recovered \<Rightarrow>
                           if toLowerCase eth recovered \<noteq> addr
                           then (nc, Inl RecoveredMismatch)
                           else (nc, Inr (addr, nonce, challenge)))))
      | _ \<Rightarrow> (nc, Inl MissingFields))"

text \<open>
  The state both servers share: the presence map, and for every socket whose listeners
  are registered the \<^verbatim>\<open>address\<close> of its closure (\<^verbatim>\<open>socket.data.address\<close>).
\<close>

record runtime =
  addressToSockets :: presence
  socketData :: "(string \<times> string) list"

record server = runtime +
  nonceChallenges :: nonces

datatype conn_result = Closed auth_error | Authenticated string

text \<open>
  The connection handler: a failed check closes the socket and registers nothing;
  otherwise the challenge is marked consumed, the address is stored in
  \<^verbatim>\<open>socket.data\<close>, the presence block runs and the listeners are registered.
\<close>

definition on_connection ::
  "ethers \<Rightarrow> string \<Rightarrow> string \<Rightarrow> authPayload \<Rightarrow> server \<Rightarrow>
     server \<times> conn_result \<times> action list" where
  "on_connection eth now sid p st =
     (case authenticate eth now p (nonceChallenges st) of
        (nc, Inl e) \<Rightarrow> (st\<lparr>nonceChallenges := nc\<rparr>, Closed e, [SocketDisconnect sid])
      | (nc, Inr (addr, nonce, challenge)) \<Rightarrow>
          (let nc' = AList.update nonce (challenge\<lparr>consumed := True\<rparr>) nc;
               (m, acts) = register addr sid (addressToSockets st)
           in (st\<lparr>nonceChallenges := nc', addressToSockets := m,
                   socketData := AList.update sid addr (socketData st)\<rparr>,
               Authenticated addr,
               acts @ [snapshot sid m])))"

text \<open>
  The \<^verbatim>\<open>dm:send\<close> listener of the socket \<open>sid\<close> whose \<^verbatim>\<open>socket.data.address\<close> is
  \<open>sender\<close>; \<open>payload\<close> is the argument the client sent and \<open>ts\<close> is \<^verbatim>\<open>Date.now()\<close>.
  The parameter pattern \<^verbatim>\<open>{ to, body }\<close> throws on \<^verbatim>\<open>undefined\<close> and \<^verbatim>\<open>null\<close>, and
  \<^verbatim>\<open>to.toLowerCase()\<close> throws when \<^verbatim>\<open>to\<close> is not a string; both happen before the
  first emit.
\<close>

definition on_dm_send ::
  "ethers \<Rightarrow> string \<Rightarrow> string \<Rightarrow> js_value \<Rightarrow> int \<Rightarrow> presence \<Rightarrow> js_error + action list" where
  "on_dm_send eth sid sender payload ts m =
     (if payload = JUndefined \<or> payload = JNull then Inl TypeError
      else
        (let to = get_prop ''to'' payload;
             body = get_prop ''body'' payload
         in if \<not> js_truthy to \<or> \<not> js_truthy body then Inr []
            else
              (case to of
                 JString t \<Rightarrow>
                   (let msg = \<lparr>msg_from = sender, msg_to = t, msg_body = body, msg_ts = ts\<rparr>;
                        recipientSockets = map_of m (toLowerCase eth t)
                    in Inr ((case recipientSockets of
                               None \<Rightarrow> []
                             | Some ids \<Rightarrow>
                                 map (\<lambda>id. IoToEmit id ''dm:message'' (DmPayload msg)) ids)
                            @ [SocketEmit sid ''dm:message'' (DmPayload msg)]))
               | _ \<Rightarrow> Inl TypeError)))"

text \<open>The \<^verbatim>\<open>disconnect\<close> listener of the socket \<open>sid\<close> with closure address \<open>addr\<close>.\<close>

definition on_disconnect :: "string \<Rightarrow> string \<Rightarrow> presence \<Rightarrow> presence \<times> action list" where
  "on_disconnect sid addr m =
     (case deregister addr sid m of None \<Rightarrow> (m, []) | Some r \<Rightarrow> r)"

text \<open>
  \<^verbatim>\<open>GET /auth/nonce\<close>. The request carries what the handler reads from its environment:
  the two query parameters, \<^verbatim>\<open>Number(chainIdRaw)\<close> when it is an integer, the host name
  and origin of the caller, the two time stamps and the bytes of \<^verbatim>\<open>randomBytes(16)\<close> in
  hexadecimal.
\<close>

record nonce_request =
  nr_address :: "string option"
  nr_chainId :: "string option"
  nr_integer :: "int option"
  nr_domain :: string
  nr_uri :: string
  nr_issuedAt :: string
  nr_expirationTime :: string
  nr_nonce :: string

definition on_nonce_request :: "ethers \<Rightarrow> nonce_request \<Rightarrow> nonces \<Rightarrow> nonces \<times> action list" where
  "on_nonce_request eth r nc =
     (case (truthy (nr_address r), truthy (nr_chainId r)) of
        (Some addressRaw, Some chainIdRaw) \<Rightarrow>
          (case nr_integer r of
             None \<Rightarrow> (nc, [HttpStatus 400])
           | Some n \<Rightarrow>
               if n \<le> 0 then (nc, [HttpStatus 400])
               else (case getAddress eth addressRaw of
                       None \<Rightarrow> (nc, [HttpStatus 400])
                     | Some checksummed \<Rightarrow>
                         (AList.update (nr_nonce r)
                            \<lparr>address = toLowerCase eth checksummed, chainId = n,
                             domain = nr_domain r, uri = nr_uri r,
                             issuedAt = nr_issuedAt r,
                             expirationTime = nr_expirationTime r,
                             consumed = False\<rparr> nc,
                          [HttpStatus 200])))
      | _ \<Rightarrow> (nc, [HttpStatus 400]))"

text \<open>
  What reaches the signing server: a nonce request, a new connection (socket id,
  handshake, clock), a \<^verbatim>\<open>dm:send\<close> (socket id, argument, clock) or the disconnect of a
  socket. The last two reach a listener only on a socket that has them, that is, one in
  \<open>socketData\<close>. An exception of the \<^verbatim>\<open>dm:send\<close> listener is recorded and the state
  stays as it was.
\<close>

datatype event =
    NonceRequest nonce_request
  | Connection string authPayload string
  | DmSend string js_value int
  | Disconnect string

fun step :: "ethers \<Rightarrow> event \<Rightarrow> server \<Rightarrow> server \<times> action list" where
  "step eth (NonceRequest r) st =
     (case on_nonce_request eth r (nonceChallenges st) of
        (nc, acts) \<Rightarrow> (st\<lparr>nonceChallenges := nc\<rparr>, acts))"
| "step eth (Connection sid p now) st =
     (case on_connection eth now sid p st of (st', res, acts) \<Rightarrow> (st', acts))"
| "step eth (DmSend sid payload ts) st =
     (case map_of (socketData st) sid of
        None \<Rightarrow> (st, [])
      | Some addr \<Rightarrow>
          (case on_dm_send eth sid addr payload ts (addressToSockets st) of
             Inl e \<Rightarrow> (st, [Uncaught e])
           | Inr acts \<Rightarrow> (st, acts)))"
| "step eth (Disconnect sid) st =
     (case map_of (socketData st) sid of
        None \<Rightarrow> (st, [])
      | Some addr \<Rightarrow>
          (case on_disconnect sid addr (addressToSockets st) of
             (m, acts) \<Rightarrow>
               (st\<lparr>addressToSockets := m,
                   socketData := AList.delete sid (socketData st)\<rparr>, acts)))"

fun run :: "ethers \<Rightarrow> event list \<Rightarrow> server \<Rightarrow> server \<times> action list" where
  "run eth [] st = (st, [])"
| "run eth (e # es) st =
     (case step eth e st of
        (st1, acts1) \<Rightarrow> (case run eth es st1 of (st2, acts2) \<Rightarrow> (st2, acts1 @ acts2)))"

definition server_init :: server where
  "server_init = \<lparr>addressToSockets = [], socketData = [], nonceChallenges = []\<rparr>"

section \<open>The room server (\<^verbatim>\<open>src/src/index.ts\<close>)\<close>

type_synonym rooms = "(string \<times> string list) list"

record chat_server = runtime +
  chatRoomMembers :: rooms

text \<open>
  The connection handler: no signature here, the claimed address is lowercased and
  registered; the snapshot is sent twice.
\<close>

definition chat_on_connection ::
  "builtins \<Rightarrow> string \<Rightarrow> string option \<Rightarrow> chat_server \<Rightarrow> chat_server \<times> action list" where
  "chat_on_connection js sid addressRaw st =
     (case truthy addressRaw of
        None \<Rightarrow> (st, [SocketDisconnect sid])
      | Some raw \<Rightarrow>
          (let addr = toLowerCase js raw;
               (m, acts) = register addr sid (addressToSockets st)
           in (st\<lparr>addressToSockets := m,
                   socketData := AList.update sid addr (socketData st)\<rparr>,
               acts @ [snapshot sid m, snapshot sid m])))"

text \<open>The \<^verbatim>\<open>dm:send\<close> listener of this server, with its own two event names.\<close>

definition chat_on_dm_send ::
  "builtins \<Rightarrow> string \<Rightarrow> string \<Rightarrow> js_value \<Rightarrow> int \<Rightarrow> presence \<Rightarrow> js_error + action list" where
  "chat_on_dm_send js sid sender payload ts m =
     (if payload = JUndefined \<or> payload = JNull then Inl TypeError
      else
        (let to = get_prop ''to'' payload;
             body = get_prop ''body'' payload
         in if \<not> js_truthy to \<or> \<not> js_truthy body then Inr []
            else
              (case to of
                 JString t \<Rightarrow>
                   (let msg = \<lparr>msg_from = sender, msg_to = t, msg_body = body, msg_ts = ts\<rparr>;
                        recipientSockets = map_of m (toLowerCase js t)
                    in Inr ((case recipientSockets of
                               None \<Rightarrow> []
                             | Some ids \<Rightarrow>
                                 map (\<lambda>socketId.
                                        IoToEmit socketId ''dm:receive'' (DmPayload msg)) ids)
                            @ [SocketEmit sid ''dm:sent'' (DmPayload msg)]))
               | _ \<Rightarrow> Inl TypeError)))"

text \<open>
  The \<^verbatim>\<open>join_chat\<close> listener. \<^verbatim>\<open>CHAT ACTIVE:\<close> is logged with the chat id followed by
  the members.
\<close>

definition join_chat :: "string \<Rightarrow> string \<Rightarrow> string \<Rightarrow> rooms \<Rightarrow> rooms \<times> action list" where
  "join_chat sid addr chatId rs =
     (let found = map_of rs chatId;
          rs1 = (case found of None \<Rightarrow> AList.update chatId [] rs | Some _ \<Rightarrow> rs);
          members = (case found of None \<Rightarrow> [] | Some ms \<Rightarrow> ms);
          before = length members;
          members' = set_add addr members;
          rs2 = AList.update chatId members' rs1
      in (rs2,
          SocketJoin sid chatId #
          (if before < 2 \<and> length members' \<ge> 2
           then [ConsoleLog ''CHAT ACTIVE:'' (chatId # members')] else [])))"

definition leaveChat :: "string \<Rightarrow> string \<Rightarrow> string \<Rightarrow> rooms \<Rightarrow> rooms \<times> action list" where
  "leaveChat sid addr chatId rs =
     (case map_of rs chatId of
        None \<Rightarrow> (rs, [SocketLeave sid chatId])
      | Some members \<Rightarrow>
          (let members' = set_delete addr members;
               rs1 = AList.update chatId members' rs
           in if length members' < 2
              then (AList.delete chatId rs1,
                    [SocketLeave sid chatId, ConsoleLog ''CHAT INACTIVE:'' [chatId]])
              else (rs1, [SocketLeave sid chatId])))"

text \<open>
  The loop of the disconnect handler over \<^verbatim>\<open>chatRoomMembers\<close>, entry by entry in
  insertion order: a room without the address is skipped (\<^verbatim>\<open>continue\<close>), otherwise the
  address leaves the room, and a room left with fewer than two members is deleted.
\<close>

fun leaveAll :: "string \<Rightarrow> rooms \<Rightarrow> rooms \<times> action list" where
  "leaveAll addr [] = ([], [])"
| "leaveAll addr ((chatId, members) # rest) =
     (case leaveAll addr rest of
        (rest', acts) \<Rightarrow>
          if addr \<notin> set members then ((chatId, members) # rest', acts)
          else (let members' = set_delete addr members
                in if length members' < 2
                   then (rest', ConsoleLog ''CHAT INACTIVE:'' [chatId] # acts)
                   else ((chatId, members') # rest', acts)))"

text \<open>
  The \<^verbatim>\<open>disconnect\<close> listener: without a presence entry it returns at once; otherwise
  the presence block runs and then the loop over the rooms.
\<close>

definition chat_on_disconnect ::
  "string \<Rightarrow> string \<Rightarrow> chat_server \<Rightarrow> chat_server \<times> action list" where
  "chat_on_disconnect sid addr st =
     (case deregister addr sid (addressToSockets st) of
        None \<Rightarrow> (st, [])
      | Some (m, acts) \<Rightarrow>
          (case leaveAll addr (chatRoomMembers st) of
             (rs, acts') \<Rightarrow>
               (st\<lparr>addressToSockets := m, chatRoomMembers := rs\<rparr>, acts @ acts')))"

datatype chat_event =
    ChatConnection string "string option"
  | ChatDmSend string js_value int
  | JoinChat string string
  | LeaveChat string string
  | ChatDisconnect string

fun chat_step :: "builtins \<Rightarrow> chat_event \<Rightarrow> chat_server \<Rightarrow> chat_server \<times> action list" where
  "chat_step js (ChatConnection sid addressRaw) st = chat_on_connection js sid addressRaw st"
| "chat_step js (ChatDmSend sid payload ts) st =
     (case map_of (socketData st) sid of
        None \<Rightarrow> (st, [])
      | Some addr \<Rightarrow>
          (case chat_on_dm_send js sid addr payload ts (addressToSockets st) of
             Inl e \<Rightarrow> (st, [Uncaught e])
           | Inr acts \<Rightarrow> (st, acts)))"
| "chat_step js (JoinChat sid chatId) st =
     (case map_of (socketData st) sid of
        None \<Rightarrow> (st, [])
      | Some addr \<Rightarrow>
          (case join_chat sid addr chatId (chatRoomMembers st) of
             (rs, acts) \<Rightarrow> (st\<lparr>chatRoomMembers := rs\<rparr>, acts)))"
| "chat_step js (LeaveChat sid chatId) st =
     (case map_of (socketData st) sid of
        None \<Rightarrow> (st, [])
      | Some addr \<Rightarrow>
          (case leaveChat sid addr chatId (chatRoomMembers st) of
             (rs, acts) \<Rightarrow> (st\<lparr>chatRoomMembers := rs\<rparr>, acts)))"
| "chat_step js (ChatDisconnect sid) st =
     (case map_of (socketData st) sid of
        None \<Rightarrow> (st, [])
      | Some addr \<Rightarrow>
          (case chat_on_disconnect sid addr st of
             (st', acts) \<Rightarrow>
               (st'\<lparr>socketData := AList.delete sid (socketData st)\<rparr>, acts)))"

fun chat_run ::
  "builtins \<Rightarrow> chat_event list \<Rightarrow> chat_server \<Rightarrow> chat_server \<times> action list" where
  "chat_run js [] st = (st, [])"
| "chat_run js (e # es) st =
     (case chat_step js e st of
        (st1, acts1) \<Rightarrow>
          (case chat_run js es st1 of (st2, acts2) \<Rightarrow> (st2, acts1 @ acts2)))"

definition chat_init :: chat_server where
  "chat_init = \<lparr>addressToSockets = [], socketData = [], chatRoomMembers = []\<rparr>"

section \<open>Auxiliary notions for the properties\<close>

text \<open>A nonce request that stores a challenge under the given nonce again.\<close>

fun reissues :: "string \<Rightarrow> event \<Rightarrow> bool" where
  "reissues nonce (NonceRequest r) = (nr_nonce r = nonce)"
| "reissues nonce _ = False"

text \<open>The challenge stored under a nonce exists and has its \<^verbatim>\<open>consumed\<close> flag set.\<close>

definition is_consumed :: "string \<Rightarrow> nonces \<Rightarrow> bool" where
  "is_consumed nonce nc = (case map_of nc nonce of None \<Rightarrow> False | Some ch \<Rightarrow> consumed ch)"

text \<open>
  The connection set of an address in the presence map, empty when there is no entry.
\<close>

definition connections :: "string \<Rightarrow> presence \<Rightarrow> string list" where
  "connections a m = (case map_of m a of None \<Rightarrow> [] | Some ids \<Rightarrow> ids)"

text \<open>
  The two operations of the presence map as events: \<open>Register a sid\<close> is the presence
  block of a connection handler that has accepted the socket \<open>sid\<close> for the address
  \<open>a\<close>, \<open>Deregister a sid\<close> the presence block of the disconnect listener of that
  socket.
\<close>

datatype reg_event = Register string string | Deregister string string

fun reg_step :: "reg_event \<Rightarrow> presence \<Rightarrow> presence \<times> action list" where
  "reg_step (Register a sid) m = register a sid m"
| "reg_step (Deregister a sid) m = on_disconnect sid a m"

fun reg_run :: "reg_event list \<Rightarrow> presence \<Rightarrow> presence \<times> action list" where
  "reg_run [] m = (m, [])"
| "reg_run (e # es) m =
     (case reg_step e m of
        (m1, acts1) \<Rightarrow> (case reg_run es m1 of (m2, acts2) \<Rightarrow> (m2, acts1 @ acts2)))"

fun concerns :: "string \<Rightarrow> reg_event \<Rightarrow> bool" where
  "concerns a (Register b sid) = (a = b)"
| "concerns a (Deregister b sid) = (a = b)"

text \<open>The two presence broadcasts about an address.\<close>

fun is_online :: "string \<Rightarrow> action \<Rightarrow> bool" where
  "is_online a (BroadcastEmit sid ev pl) = (ev = ''presence:online'' \<and> pl = AddressPayload a)"
| "is_online a _ = False"

fun is_offline :: "string \<Rightarrow> action \<Rightarrow> bool" where
  "is_offline a (IoEmit ev pl) = (ev = ''presence:offline'' \<and> pl = AddressPayload a)"
| "is_offline a _ = False"

text \<open>
  The data invariant of the presence map: keys occur once, and every entry holds a
  non-empty set without repetitions.
\<close>

definition reg_inv :: "presence \<Rightarrow> bool" where
  "reg_inv m = (distinct (map fst m) \<and> list_all (\<lambda>(a, ids). ids \<noteq> [] \<and> distinct ids) m)"

text \<open>
  The session entry as the specification describes it, read off a trace of events: the
  set of connections of an identity, and the number of times that set went from empty
  to non-empty and from non-empty to empty.
\<close>

fun spec_live_step :: "string \<Rightarrow> reg_event \<Rightarrow> string set \<Rightarrow> string set" where
  "spec_live_step a (Register b sid) S = (if a = b then insert sid S else S)"
| "spec_live_step a (Deregister b sid) S = (if a = b then S - {sid} else S)"

fun spec_live :: "string \<Rightarrow> string set \<Rightarrow> reg_event list \<Rightarrow> string set" where
  "spec_live a S [] = S"
| "spec_live a S (e # es) = spec_live a (spec_live_step a e S) es"

fun spec_went_online :: "string \<Rightarrow> string set \<Rightarrow> reg_event list \<Rightarrow> nat" where
  "spec_went_online a S [] = 0"
| "spec_went_online a S (e # es) =
     (if S = {} \<and> spec_live_step a e S \<noteq> {} then 1 else 0) +
     spec_went_online a (spec_live_step a e S) es"

fun spec_went_offline :: "string \<Rightarrow> string set \<Rightarrow> reg_event list \<Rightarrow> nat" where
  "spec_went_offline a S [] = 0"
| "spec_went_offline a S (e # es) =
     (if S \<noteq> {} \<and> spec_live_step a e S = {} then 1 else 0) +
     spec_went_offline a (spec_live_step a e S) es"

definition presence_of :: "string \<Rightarrow> action \<Rightarrow> bool" where
  "presence_of a act = (is_online a act \<or> is_offline a act)"

text \<open>
  The presence operations that an event of either server performs, and the trace of them
  along a run.
\<close>

fun reg_events_of :: "ethers \<Rightarrow> event \<Rightarrow> server \<Rightarrow> reg_event list" where
  "reg_events_of eth (Connection sid p now) st =
     (case snd (authenticate eth now p (nonceChallenges st)) of
        Inl e \<Rightarrow> []
      | Inr (addr, nonce, challenge) \<Rightarrow> [Register addr sid])"
| "reg_events_of eth (Disconnect sid) st =
     (case map_of (socketData st) sid of None \<Rightarrow> [] | Some addr \<Rightarrow> [Deregister addr sid])"
| "reg_events_of eth _ st = []"

fun reg_trace :: "ethers \<Rightarrow> event list \<Rightarrow> server \<Rightarrow> reg_event list" where
  "reg_trace eth [] st = []"
| "reg_trace eth (e # es) st = reg_events_of eth e st @ reg_trace eth es (fst (step eth e st))"

fun chat_reg_events_of :: "builtins \<Rightarrow> chat_event \<Rightarrow> chat_server \<Rightarrow> reg_event list" where
  "chat_reg_events_of js (ChatConnection sid addressRaw) st =
     (case truthy addressRaw of
        None \<Rightarrow> []
      | Some raw \<Rightarrow> [Register (toLowerCase js raw) sid])"
| "chat_reg_events_of js (ChatDisconnect sid) st =
     (case map_of (socketData st) sid of None \<Rightarrow> [] | Some addr \<Rightarrow> [Deregister addr sid])"
| "chat_reg_events_of js _ st = []"

fun chat_reg_trace :: "builtins \<Rightarrow> chat_event list \<Rightarrow> chat_server \<Rightarrow> reg_event list" where
  "chat_reg_trace js [] st = []"
| "chat_reg_trace js (e # es) st =
     chat_reg_events_of js e st @ chat_reg_trace js es (fst (chat_step js e st))"

text \<open>The members of a room, none when there is no entry.\<close>

definition members_of :: "string \<Rightarrow> rooms \<Rightarrow> string list" where
  "members_of chatId rs = (case map_of rs chatId of None \<Rightarrow> [] | Some ms \<Rightarrow> ms)"

text \<open>\<^verbatim>\<open>join_chat\<close> for one room by a list of sockets with their addresses, in order.\<close>

fun joins :: "(string \<times> string) list \<Rightarrow> string \<Rightarrow> rooms \<Rightarrow> rooms \<times> action list" where
  "joins [] chatId rs = (rs, [])"
| "joins ((sid, addr) # js) chatId rs =
     (case join_chat sid addr chatId rs of
        (rs1, acts1) \<Rightarrow>
          (case joins js chatId rs1 of (rs2, acts2) \<Rightarrow> (rs2, acts1 @ acts2)))"

text \<open>The room-active signal of a room: the log line \<^verbatim>\<open>CHAT ACTIVE:\<close> with its id.\<close>

fun is_active :: "string \<Rightarrow> action \<Rightarrow> bool" where
  "is_active c (ConsoleLog t args) =
     (t = ''CHAT ACTIVE:'' \<and> (case args of [] \<Rightarrow> False | x # _ \<Rightarrow> x = c))"
| "is_active c _ = False"

section \<open>Concrete data\<close>

text \<open>
  \<^verbatim>\<open>toLowerCase\<close> on ASCII strings: the letters \<^verbatim>\<open>A\<close> to \<^verbatim>\<open>Z\<close> move to \<^verbatim>\<open>a\<close> to
  \<^verbatim>\<open>z\<close>, every other character stays.
\<close>

definition lower_char :: "char \<Rightarrow> char" where
  "lower_char c =
     (if CHR ''A'' \<le> c \<and> c \<le> CHR ''Z'' then char_of (of_char c + (32::nat)) else c)"

definition demo_js :: builtins where
  "demo_js = \<lparr>toLowerCase = map lower_char\<rparr>"

text \<open>
  A stand-in for the library, enough to run the handlers: an address is any string that
  starts with \<^verbatim>\<open>0x\<close>, and the signature \<^verbatim>\<open>sig-<nonce>-<signer>\<close> over a message with
  that nonce recovers \<^verbatim>\<open><signer>\<close>.
\<close>

definition demo_ethers :: ethers where
  "demo_ethers =
     \<lparr>toLowerCase = map lower_char,
      getAddress = (\<lambda>s. if take 2 s = ''0x'' then Some s else None),
      verifyTypedData = (\<lambda>d m sg.
         if take (5 + length (si_nonce m)) sg = ''sig-'' @ si_nonce m @ ''-''
         then Some (drop (5 + length (si_nonce m)) sg) else None)\<rparr>"

definition demo_challenge :: NonceChallenge where
  "demo_challenge =
     \<lparr>address = ''0xab'', chainId = 1, domain = ''localhost'',
      uri = ''http://localhost:5173'', issuedAt = ''2026-01-01T00:00:00.000Z'',
      expirationTime = ''2026-01-01T00:05:00.000Z'', consumed = False\<rparr>"

definition demo_auth :: "string \<Rightarrow> string \<Rightarrow> string \<Rightarrow> authPayload" where
  "demo_auth a sg n =
     \<lparr>auth_address = Some a, auth_signature = Some sg,
      auth_typedData = Some \<lparr>atd_domain = None,
         atd_message = Some \<lparr>am_nonce = Some n, am_chainId = None, am_issuedAt = None,
                              am_expirationTime = None\<rparr>\<rparr>\<rparr>"

text \<open>The same handshake with other values in the fields the handler never reads.\<close>

definition demo_auth_forged :: "string \<Rightarrow> string \<Rightarrow> string \<Rightarrow> authPayload" where
  "demo_auth_forged a sg n =
     \<lparr>auth_address = Some a, auth_signature = Some sg,
      auth_typedData = Some
        \<lparr>atd_domain = Some \<lparr>ad_name = Some ''Other App'', ad_version = Some ''9'',
                               ad_chainId = Some 5\<rparr>,
         atd_message = Some \<lparr>am_nonce = Some n, am_chainId = Some 5,
                              am_issuedAt = Some ''1999-01-01T00:00:00.000Z'',
                              am_expirationTime = Some ''2999-01-01T00:00:00.000Z''\<rparr>\<rparr>\<rparr>"

definition demo_server :: server where
  "demo_server =
     \<lparr>addressToSockets = [], socketData = [],
      nonceChallenges = [(''n1'', demo_challenge)]\<rparr>"

definition demo_server1 :: server where
  "demo_server1 =
     \<lparr>addressToSockets = [(''0xab'', [''s1''])], socketData = [(''s1'', ''0xab'')],
      nonceChallenges = [(''n1'', demo_challenge\<lparr>consumed := True\<rparr>)]\<rparr>"

definition demo_now :: string where
  "demo_now = ''2026-01-01T00:01:00.000Z''"

definition demo_late :: string where
  "demo_late = ''2026-01-01T00:05:00.000Z''"

definition demo_events :: "event list" where
  "demo_events =
     [DmSend ''s1'' (JObject [(''to'', JString ''0xEF01''), (''body'', JString ''hi'')])
        1767225661000,
      NonceRequest \<lparr>nr_address = Some ''0xCD'', nr_chainId = Some ''1'',
                    nr_integer = Some 1, nr_domain = ''localhost'',
                    nr_uri = ''http://localhost:5173'',
                    nr_issuedAt = ''2026-01-01T00:02:00.000Z'',
                    nr_expirationTime = ''2026-01-01T00:07:00.000Z'', nr_nonce = ''n2''\<rparr>,
      Disconnect ''s1'']"

definition demo_server2 :: server where
  "demo_server2 =
     \<lparr>addressToSockets = [], socketData = [],
      nonceChallenges =
        [(''n1'', demo_challenge\<lparr>consumed := True\<rparr>),
         (''n2'', \<lparr>address = ''0xcd'', chainId = 1, domain = ''localhost'',
                   uri = ''http://localhost:5173'',
                   issuedAt = ''2026-01-01T00:02:00.000Z'',
                   expirationTime = ''2026-01-01T00:07:00.000Z'', consumed = False\<rparr>)]\<rparr>"

definition demo_reg_trace :: "reg_event list" where
  "demo_reg_trace =
     [Register ''0xab'' ''s1'', Register ''0xcd'' ''s3'', Register ''0xab'' ''s2'',
      Deregister ''0xab'' ''s1'', Deregister ''0xab'' ''s2'']"

text \<open>
  Two devices of one address and one of another connect to the room server; the first
  device and the other address join a room.
\<close>

definition demo_chat_events :: "chat_event list" where
  "demo_chat_events =
     [ChatConnection ''s1'' (Some ''0xA''), ChatConnection ''s2'' (Some ''0xA''),
      ChatConnection ''s3'' (Some ''0xB''), JoinChat ''s1'' ''room'',
      JoinChat ''s3'' ''room'']"

text \<open>Four joins of one room: two addresses, the first address again, a third one.\<close>

definition demo_joiners :: "(string \<times> string) list" where
  "demo_joiners =
     [(''s1'', ''0xa''), (''s3'', ''0xb''), (''s2'', ''0xa''), (''s4'', ''0xc'')]"

definition demo_rooms :: rooms where
  "demo_rooms = [(''room'', [''0xa'', ''0xb''])]"




text \<open>
  A second library that recovers a signer from any signature unless the typed data carry
  the application name and the statement of this server, where it is the first one.
\<close>

definition demo_ethers_other :: ethers where
  "demo_ethers_other =
     demo_ethers\<lparr>verifyTypedData := (\<lambda>d m sg.
        if td_name d = ''EVM RealTimeChat'' \<and> si_statement m = ''Sign in to EVM RealTimeChat''
        then verifyTypedData demo_ethers d m sg else Some ''0xab'')\<rparr>"




section \<open>The checks of the connection handler\<close>

lemma truthy_Some: "truthy x = Some s \<longleftrightarrow> x = Some s \<and> s \<noteq> []"
  by (cases x) auto

lemma authenticate_Inr:
  assumes "authenticate eth now p nc = (nc', Inr (addr, nonce, ch))"
  shows "nc' = nc \<and> truthy (auth_nonce p) = Some nonce \<and>
     map_of nc nonce = Some ch \<and> \<not> consumed ch \<and> \<not> expirationTime ch \<le> now \<and>
     address ch = addr \<and>
     (\<exists>raw sg cs rec. truthy (auth_address p) = Some raw \<and>
        truthy (auth_signature p) = Some sg \<and>
        getAddress eth raw = Some cs \<and> toLowerCase eth cs = addr \<and>
        verifyTypedData eth (build_domain ch) (build_message ch nonce) sg = Some rec \<and>
        toLowerCase eth rec = addr)"
  using assms
  by (auto simp: authenticate_def Let_def split: option.splits if_splits)

lemma authenticate_Inl:
  assumes "authenticate eth now p nc = (nc', Inl e)"
  shows "if e = NonceExpired
         then (\<exists>nonce ch. truthy (auth_nonce p) = Some nonce \<and> map_of nc nonce = Some ch \<and>
                 \<not> consumed ch \<and> expirationTime ch \<le> now \<and> nc' = AList.delete nonce nc)
         else nc' = nc"
  using assms
  by (auto simp: authenticate_def Let_def split: option.splits if_splits)

lemma demo_auth_fields:
  "auth_address (demo_auth a sg n) = Some a"
  "auth_signature (demo_auth a sg n) = Some sg"
  "auth_nonce (demo_auth a sg n) = Some n"
  by (simp_all add: demo_auth_def auth_nonce_def)

lemma demo_auth_forged_fields:
  "auth_address (demo_auth_forged a sg n) = Some a"
  "auth_signature (demo_auth_forged a sg n) = Some sg"
  "auth_nonce (demo_auth_forged a sg n) = Some n"
  by (simp_all add: demo_auth_forged_def auth_nonce_def)

lemma demo_connection:
  "on_connection demo_ethers demo_now ''s1'' (demo_auth ''0xAB'' ''sig-n1-0xAb'' ''n1'')
     demo_server =
     (demo_server1, Authenticated ''0xab'',
      [ConsoleLog ''USER ONLINE:'' [''0xab''],
       BroadcastEmit ''s1'' ''presence:online'' (AddressPayload ''0xab''),
       SocketEmit ''s1'' ''presence:snapshot'' (SnapshotPayload [''0xab''])])"
  by code_simp

lemma demo_mismatch:
  "on_connection demo_ethers demo_now ''s1'' (demo_auth ''0xAB'' ''sig-n1-0xAc'' ''n1'')
     demo_server =
     (demo_server, Closed RecoveredMismatch, [SocketDisconnect ''s1''])"
  by code_simp

lemma demo_expired:
  "on_connection demo_ethers demo_late ''s1'' (demo_auth ''0xAB'' ''sig-n1-0xAb'' ''n1'')
     demo_server =
     (demo_server\<lparr>nonceChallenges := []\<rparr>, Closed NonceExpired, [SocketDisconnect ''s1''])"
  by code_simp

lemma demo_store: "map_of (nonceChallenges demo_server) ''n1'' = Some demo_challenge"
  by (simp add: demo_server_def)

lemma demo_is_late: "expirationTime demo_challenge \<le> demo_late"
  by (simp add: demo_challenge_def demo_late_def)

text \<open>
  C1. A connection is authenticated only when the handshake names an address, a
  signature and a nonce, the nonce has a stored challenge, and the address recovered
  from the signature over the message rebuilt from that challenge, lowercased, equals
  both the lowercased claimed address and the address bound to the challenge. In every
  other case the socket is closed: the only action is the disconnect, and neither the
  presence map nor the listeners change, so the connection is never registered.
\<close>

theorem connection_authenticated_only_if_recovered_matches:
  assumes "on_connection eth now sid p st = (st', res, acts)"
  shows "case res of
      Authenticated addr \<Rightarrow>
        (\<exists>raw sg nonce cs ch rec.
           auth_address p = Some raw \<and> auth_signature p = Some sg \<and>
           auth_nonce p = Some nonce \<and>
           getAddress eth raw = Some cs \<and>
           map_of (nonceChallenges st) nonce = Some ch \<and>
           verifyTypedData eth (build_domain ch) (build_message ch nonce) sg = Some rec \<and>
           toLowerCase eth rec = toLowerCase eth cs \<and> toLowerCase eth rec = address ch \<and>
           addr = toLowerCase eth rec)
    | Closed e \<Rightarrow>
        acts = [SocketDisconnect sid] \<and> addressToSockets st' = addressToSockets st \<and>
        socketData st' = socketData st"
proof (cases "authenticate eth now p (nonceChallenges st)")
  case (Pair nc r)
  show ?thesis
  proof (cases r)
    case (Inl e)
    with Pair assms show ?thesis by (auto simp: on_connection_def)
  next
    case (Inr t)
    obtain addr nonce ch where t: "t = (addr, nonce, ch)" by (cases t)
    from authenticate_Inr[OF Pair[unfolded Inr t]] Pair Inr t assms
    show ?thesis
      by (auto simp: on_connection_def Let_def truthy_Some split: prod.splits)
  qed
qed

theorem connection_authenticated_only_if_recovered_matches_witness:
  "on_connection demo_ethers demo_now ''s1'' (demo_auth ''0xAB'' ''sig-n1-0xAb'' ''n1'')
     demo_server =
     (demo_server1, Authenticated ''0xab'',
      [ConsoleLog ''USER ONLINE:'' [''0xab''],
       BroadcastEmit ''s1'' ''presence:online'' (AddressPayload ''0xab''),
       SocketEmit ''s1'' ''presence:snapshot'' (SnapshotPayload [''0xab''])]) \<and>
   (\<exists>raw sg nonce cs ch rec.
      auth_address (demo_auth ''0xAB'' ''sig-n1-0xAb'' ''n1'') = Some raw \<and>
      auth_signature (demo_auth ''0xAB'' ''sig-n1-0xAb'' ''n1'') = Some sg \<and>
      auth_nonce (demo_auth ''0xAB'' ''sig-n1-0xAb'' ''n1'') = Some nonce \<and>
      getAddress demo_ethers raw = Some cs \<and>
      map_of (nonceChallenges demo_server) nonce = Some ch \<and>
      verifyTypedData demo_ethers (build_domain ch) (build_message ch nonce) sg = Some rec \<and>
      toLowerCase demo_ethers rec = toLowerCase demo_ethers cs \<and>
      toLowerCase demo_ethers rec = address ch \<and>
      ''0xab'' = toLowerCase demo_ethers rec)"
  using connection_authenticated_only_if_recovered_matches[OF demo_connection] demo_connection
  by simp

text \<open>
  C5. A connection attempt that is closed never sets a \<^verbatim>\<open>consumed\<close> flag: unless the
  failed check is the expiry check the whole server state is as before, and the expiry
  check only deletes the expired entry of the presented nonce. So every challenge still
  stored after a failed attempt is stored unchanged, and the attempt can be repeated
  with the same nonce.
\<close>

theorem failed_attempt_leaves_consumed_flag:
  assumes "on_connection eth now sid p st = (st', Closed e, acts)"
  shows "(if e = NonceExpired
          then (\<exists>nonce ch. auth_nonce p = Some nonce \<and>
                  map_of (nonceChallenges st) nonce = Some ch \<and> expirationTime ch \<le> now \<and>
                  st' = st\<lparr>nonceChallenges := AList.delete nonce (nonceChallenges st)\<rparr>)
          else st' = st) \<and>
         (\<forall>n ch. map_of (nonceChallenges st') n = Some ch \<longrightarrow>
                  map_of (nonceChallenges st) n = Some ch)"
proof -
  obtain nc r where a: "authenticate eth now p (nonceChallenges st) = (nc, r)"
    by (cases "authenticate eth now p (nonceChallenges st)")
  from a assms obtain r: "r = Inl e" and st': "st' = st\<lparr>nonceChallenges := nc\<rparr>"
    by (cases r) (auto simp: on_connection_def Let_def split: prod.splits)
  from authenticate_Inl[OF a[unfolded r]] st'
  show ?thesis
    by (auto simp: truthy_Some delete_conv' split: if_splits)
qed

theorem failed_attempt_leaves_consumed_flag_witness:
  "on_connection demo_ethers demo_now ''s1'' (demo_auth ''0xAB'' ''sig-n1-0xAc'' ''n1'')
     demo_server =
     (demo_server, Closed RecoveredMismatch, [SocketDisconnect ''s1'']) \<and>
   map_of (nonceChallenges demo_server) ''n1'' = Some demo_challenge \<and>
   \<not> consumed demo_challenge"
  using failed_attempt_leaves_consumed_flag[OF demo_mismatch] demo_mismatch demo_store
  by (simp add: demo_challenge_def)

lemma authenticate_cong:
  assumes "toLowerCase eth' = toLowerCase eth" "getAddress eth' = getAddress eth"
    and "\<And>nonce sg ch. auth_nonce p = Some nonce \<Longrightarrow> auth_signature p = Some sg \<Longrightarrow>
           map_of nc nonce = Some ch \<Longrightarrow>
           verifyTypedData eth' (build_domain ch) (build_message ch nonce) sg =
           verifyTypedData eth (build_domain ch) (build_message ch nonce) sg"
  shows "authenticate eth' now p nc = authenticate eth now p nc"
proof (cases "truthy (auth_address p)")
  case None
  then show ?thesis by (simp add: authenticate_def)
next
  case a: (Some raw)
  show ?thesis
  proof (cases "truthy (auth_signature p)")
    case None
    with a show ?thesis by (simp add: authenticate_def)
  next
    case s: (Some sg)
    show ?thesis
    proof (cases "truthy (auth_nonce p)")
      case None
      with a s show ?thesis by (simp add: authenticate_def)
    next
      case n: (Some nonce)
      show ?thesis
      proof (cases "map_of nc nonce")
        case None
        with a s n assms(1,2) show ?thesis
          by (simp add: authenticate_def split: option.splits)
      next
        case (Some ch)
        from s n have "auth_signature p = Some sg" "auth_nonce p = Some nonce"
          by (simp_all add: truthy_Some)
        from assms(3)[OF this(2) this(1) Some] a s n Some assms(1,2) show ?thesis
          by (simp add: authenticate_def Let_def split: option.splits)
      qed
    qed
  qed
qed

lemma on_connection_cong:
  assumes "toLowerCase eth' = toLowerCase eth" "getAddress eth' = getAddress eth"
    and "\<And>nonce sg ch. auth_nonce p = Some nonce \<Longrightarrow> auth_signature p = Some sg \<Longrightarrow>
           map_of (nonceChallenges st) nonce = Some ch \<Longrightarrow>
           verifyTypedData eth' (build_domain ch) (build_message ch nonce) sg =
           verifyTypedData eth (build_domain ch) (build_message ch nonce) sg"
  shows "on_connection eth' now sid p st = on_connection eth now sid p st"
  using authenticate_cong[OF assms(1,2), of p "nonceChallenges st" now] assms(3)
  by (simp add: on_connection_def)

lemma on_connection_verified:
  assumes "on_connection eth now sid p st = (st', Authenticated addr, acts)"
  shows "\<exists>nonce sg ch rec. auth_nonce p = Some nonce \<and> auth_signature p = Some sg \<and>
           map_of (nonceChallenges st) nonce = Some ch \<and>
           verifyTypedData eth (build_domain ch) (build_message ch nonce) sg = Some rec \<and>
           toLowerCase eth rec = addr"
proof (cases "authenticate eth now p (nonceChallenges st)")
  case (Pair nc r)
  show ?thesis
  proof (cases r)
    case (Inl e)
    with Pair assms show ?thesis by (auto simp: on_connection_def)
  next
    case (Inr t)
    obtain ad nonce ch where t: "t = (ad, nonce, ch)" by (cases t)
    from Pair Inr t assms have "ad = addr"
      by (auto simp: on_connection_def Let_def split: prod.splits)
    with authenticate_Inr[OF Pair[unfolded Inr t]] show ?thesis
      by (auto simp: truthy_Some)
  qed
qed

lemma demo_other_agrees:
  "toLowerCase demo_ethers_other = toLowerCase demo_ethers"
  "getAddress demo_ethers_other = getAddress demo_ethers"
  "verifyTypedData demo_ethers_other
     \<lparr>td_name = ''EVM RealTimeChat'', td_version = v, td_chainId = c\<rparr>
     \<lparr>si_domain = d, si_address = a, si_statement = ''Sign in to EVM RealTimeChat'',
      si_uri = u, si_version = v', si_chainId = c', si_nonce = n, si_issuedAt = i,
      si_expirationTime = x\<rparr> sg =
   verifyTypedData demo_ethers
     \<lparr>td_name = ''EVM RealTimeChat'', td_version = v, td_chainId = c\<rparr>
     \<lparr>si_domain = d, si_address = a, si_statement = ''Sign in to EVM RealTimeChat'',
      si_uri = u, si_version = v', si_chainId = c', si_nonce = n, si_issuedAt = i,
      si_expirationTime = x\<rparr> sg"
  by (simp_all add: demo_ethers_other_def)

lemma demo_other_differs:
  "verifyTypedData demo_ethers_other
     \<lparr>td_name = ''Other App'', td_version = ''1'', td_chainId = 1\<rparr>
     (build_message demo_challenge ''n1'') ''forged'' = Some ''0xab''"
  "verifyTypedData demo_ethers
     \<lparr>td_name = ''Other App'', td_version = ''1'', td_chainId = 1\<rparr>
     (build_message demo_challenge ''n1'') ''forged'' = None"
  by (simp_all add: demo_ethers_other_def demo_ethers_def build_message_def)

text \<open>
  C6. Two handshakes with the same address, signature and nonce have the same outcome,
  the same state and the same actions, whatever their other \<^verbatim>\<open>typedData\<close> fields hold.
  A connection is authenticated only if the library recovers a signer from the signature
  over exactly this typed data: the application name, version and chain id of the stored
  challenge as domain, and as message the domain, address, uri, chain id and time stamps
  of the stored challenge with the statement and version of the server and the nonce
  that selected the challenge. Nothing else is ever verified: a library that agrees with
  the given one on this typed data (and on the other two functions) gives the same
  outcome.
\<close>

theorem outcome_independent_of_client_typed_data:
  assumes "auth_address p = auth_address q" "auth_signature p = auth_signature q"
    "auth_nonce p = auth_nonce q"
  shows "on_connection eth now sid p st = on_connection eth now sid q st \<and>
     (\<forall>st' addr acts. on_connection eth now sid q st = (st', Authenticated addr, acts) \<longrightarrow>
        (\<exists>nonce sg ch rec.
           auth_nonce p = Some nonce \<and> auth_signature p = Some sg \<and>
           map_of (nonceChallenges st) nonce = Some ch \<and>
           verifyTypedData eth
             \<lparr>td_name = ''EVM RealTimeChat'', td_version = ''1'', td_chainId = chainId ch\<rparr>
             \<lparr>si_domain = domain ch, si_address = address ch,
              si_statement = ''Sign in to EVM RealTimeChat'', si_uri = uri ch,
              si_version = ''1'', si_chainId = chainId ch, si_nonce = nonce,
              si_issuedAt = issuedAt ch, si_expirationTime = expirationTime ch\<rparr>
             sg = Some rec \<and>
           toLowerCase eth rec = addr)) \<and>
     (\<forall>eth'. toLowerCase eth' = toLowerCase eth \<and> getAddress eth' = getAddress eth \<and>
        (\<forall>nonce sg ch.
           auth_nonce p = Some nonce \<and> auth_signature p = Some sg \<and>
           map_of (nonceChallenges st) nonce = Some ch \<longrightarrow>
           verifyTypedData eth'
             \<lparr>td_name = ''EVM RealTimeChat'', td_version = ''1'', td_chainId = chainId ch\<rparr>
             \<lparr>si_domain = domain ch, si_address = address ch,
              si_statement = ''Sign in to EVM RealTimeChat'', si_uri = uri ch,
              si_version = ''1'', si_chainId = chainId ch, si_nonce = nonce,
              si_issuedAt = issuedAt ch, si_expirationTime = expirationTime ch\<rparr> sg =
           verifyTypedData eth
             \<lparr>td_name = ''EVM RealTimeChat'', td_version = ''1'', td_chainId = chainId ch\<rparr>
             \<lparr>si_domain = domain ch, si_address = address ch,
              si_statement = ''Sign in to EVM RealTimeChat'', si_uri = uri ch,
              si_version = ''1'', si_chainId = chainId ch, si_nonce = nonce,
              si_issuedAt = issuedAt ch, si_expirationTime = expirationTime ch\<rparr> sg)
        \<longrightarrow> on_connection eth' now sid q st = on_connection eth now sid p st)"
proof -
  have same: "on_connection e now sid p st = on_connection e now sid q st" for e
    using assms by (simp add: on_connection_def authenticate_def)
  have triple:
    "build_domain ch =
       \<lparr>td_name = ''EVM RealTimeChat'', td_version = ''1'', td_chainId = chainId ch\<rparr>"
    "build_message ch nonce =
       \<lparr>si_domain = domain ch, si_address = address ch,
        si_statement = ''Sign in to EVM RealTimeChat'', si_uri = uri ch,
        si_version = ''1'', si_chainId = chainId ch, si_nonce = nonce,
        si_issuedAt = issuedAt ch, si_expirationTime = expirationTime ch\<rparr>"
    for ch nonce
    by (simp_all add: build_domain_def build_message_def SIWE_STATEMENT_def SIWE_VERSION_def)
  show ?thesis
  proof (intro conjI allI impI)
    show "on_connection eth now sid p st = on_connection eth now sid q st" by (rule same)
  next
    fix st' addr acts
    assume "on_connection eth now sid q st = (st', Authenticated addr, acts)"
    then have "on_connection eth now sid p st = (st', Authenticated addr, acts)"
      by (simp add: same)
    from on_connection_verified[OF this] show "\<exists>nonce sg ch rec.
           auth_nonce p = Some nonce \<and> auth_signature p = Some sg \<and>
           map_of (nonceChallenges st) nonce = Some ch \<and>
           verifyTypedData eth
             \<lparr>td_name = ''EVM RealTimeChat'', td_version = ''1'', td_chainId = chainId ch\<rparr>
             \<lparr>si_domain = domain ch, si_address = address ch,
              si_statement = ''Sign in to EVM RealTimeChat'', si_uri = uri ch,
              si_version = ''1'', si_chainId = chainId ch, si_nonce = nonce,
              si_issuedAt = issuedAt ch, si_expirationTime = expirationTime ch\<rparr>
             sg = Some rec \<and>
           toLowerCase eth rec = addr"
      by (simp only: triple)
  next
    fix eth' :: ethers
    assume h: "toLowerCase eth' = toLowerCase eth \<and> getAddress eth' = getAddress eth \<and>
        (\<forall>nonce sg ch.
           auth_nonce p = Some nonce \<and> auth_signature p = Some sg \<and>
           map_of (nonceChallenges st) nonce = Some ch \<longrightarrow>
           verifyTypedData eth'
             \<lparr>td_name = ''EVM RealTimeChat'', td_version = ''1'', td_chainId = chainId ch\<rparr>
             \<lparr>si_domain = domain ch, si_address = address ch,
              si_statement = ''Sign in to EVM RealTimeChat'', si_uri = uri ch,
              si_version = ''1'', si_chainId = chainId ch, si_nonce = nonce,
              si_issuedAt = issuedAt ch, si_expirationTime = expirationTime ch\<rparr> sg =
           verifyTypedData eth
             \<lparr>td_name = ''EVM RealTimeChat'', td_version = ''1'', td_chainId = chainId ch\<rparr>
             \<lparr>si_domain = domain ch, si_address = address ch,
              si_statement = ''Sign in to EVM RealTimeChat'', si_uri = uri ch,
              si_version = ''1'', si_chainId = chainId ch, si_nonce = nonce,
              si_issuedAt = issuedAt ch, si_expirationTime = expirationTime ch\<rparr> sg)"
    then have "on_connection eth' now sid p st = on_connection eth now sid p st"
      by (intro on_connection_cong) (simp_all add: triple)
    then show "on_connection eth' now sid q st = on_connection eth now sid p st"
      by (simp add: same)
  qed
qed

theorem outcome_independent_of_client_typed_data_witness:
  "auth_address (demo_auth ''0xAB'' ''sig-n1-0xAb'' ''n1'') =
     auth_address (demo_auth_forged ''0xAB'' ''sig-n1-0xAb'' ''n1'') \<and>
   auth_signature (demo_auth ''0xAB'' ''sig-n1-0xAb'' ''n1'') =
     auth_signature (demo_auth_forged ''0xAB'' ''sig-n1-0xAb'' ''n1'') \<and>
   auth_nonce (demo_auth ''0xAB'' ''sig-n1-0xAb'' ''n1'') =
     auth_nonce (demo_auth_forged ''0xAB'' ''sig-n1-0xAb'' ''n1'') \<and>
   demo_auth ''0xAB'' ''sig-n1-0xAb'' ''n1'' \<noteq> demo_auth_forged ''0xAB'' ''sig-n1-0xAb'' ''n1'' \<and>
   on_connection demo_ethers demo_now ''s1'' (demo_auth_forged ''0xAB'' ''sig-n1-0xAb'' ''n1'')
     demo_server =
     (demo_server1, Authenticated ''0xab'',
      [ConsoleLog ''USER ONLINE:'' [''0xab''],
       BroadcastEmit ''s1'' ''presence:online'' (AddressPayload ''0xab''),
       SocketEmit ''s1'' ''presence:snapshot'' (SnapshotPayload [''0xab''])]) \<and>
   (\<exists>nonce sg ch rec.
      auth_nonce (demo_auth ''0xAB'' ''sig-n1-0xAb'' ''n1'') = Some nonce \<and>
      auth_signature (demo_auth ''0xAB'' ''sig-n1-0xAb'' ''n1'') = Some sg \<and>
      map_of (nonceChallenges demo_server) nonce = Some ch \<and>
      verifyTypedData demo_ethers
        \<lparr>td_name = ''EVM RealTimeChat'', td_version = ''1'', td_chainId = chainId ch\<rparr>
        \<lparr>si_domain = domain ch, si_address = address ch,
         si_statement = ''Sign in to EVM RealTimeChat'', si_uri = uri ch,
         si_version = ''1'', si_chainId = chainId ch, si_nonce = nonce,
         si_issuedAt = issuedAt ch, si_expirationTime = expirationTime ch\<rparr>
        sg = Some rec \<and>
      toLowerCase demo_ethers rec = ''0xab'') \<and>
   verifyTypedData demo_ethers_other
     \<lparr>td_name = ''Other App'', td_version = ''1'', td_chainId = 1\<rparr>
     (build_message demo_challenge ''n1'') ''forged'' \<noteq>
   verifyTypedData demo_ethers
     \<lparr>td_name = ''Other App'', td_version = ''1'', td_chainId = 1\<rparr>
     (build_message demo_challenge ''n1'') ''forged'' \<and>
   on_connection demo_ethers_other demo_now ''s1''
     (demo_auth_forged ''0xAB'' ''sig-n1-0xAb'' ''n1'') demo_server =
     (demo_server1, Authenticated ''0xab'',
      [ConsoleLog ''USER ONLINE:'' [''0xab''],
       BroadcastEmit ''s1'' ''presence:online'' (AddressPayload ''0xab''),
       SocketEmit ''s1'' ''presence:snapshot'' (SnapshotPayload [''0xab''])])"
proof -
  note inst = outcome_independent_of_client_typed_data[of "demo_auth ''0xAB'' ''sig-n1-0xAb'' ''n1''"
              "demo_auth_forged ''0xAB'' ''sig-n1-0xAb'' ''n1''"
              demo_ethers demo_now "''s1''" demo_server]
  have fields:
    "auth_address (demo_auth ''0xAB'' ''sig-n1-0xAb'' ''n1'') =
       auth_address (demo_auth_forged ''0xAB'' ''sig-n1-0xAb'' ''n1'')"
    "auth_signature (demo_auth ''0xAB'' ''sig-n1-0xAb'' ''n1'') =
       auth_signature (demo_auth_forged ''0xAB'' ''sig-n1-0xAb'' ''n1'')"
    "auth_nonce (demo_auth ''0xAB'' ''sig-n1-0xAb'' ''n1'') =
       auth_nonce (demo_auth_forged ''0xAB'' ''sig-n1-0xAb'' ''n1'')"
    by (simp_all add: demo_auth_fields demo_auth_forged_fields)
  note r = inst[OF fields]
  have 1: "on_connection demo_ethers demo_now ''s1''
      (demo_auth_forged ''0xAB'' ''sig-n1-0xAb'' ''n1'') demo_server =
     (demo_server1, Authenticated ''0xab'',
      [ConsoleLog ''USER ONLINE:'' [''0xab''],
       BroadcastEmit ''s1'' ''presence:online'' (AddressPayload ''0xab''),
       SocketEmit ''s1'' ''presence:snapshot'' (SnapshotPayload [''0xab''])])"
    using r[THEN conjunct1] demo_connection by simp
  note 2 = r[THEN conjunct2, THEN conjunct1, rule_format, OF 1]
  have "on_connection demo_ethers_other demo_now ''s1''
            (demo_auth_forged ''0xAB'' ''sig-n1-0xAb'' ''n1'') demo_server =
          on_connection demo_ethers demo_now ''s1''
            (demo_auth ''0xAB'' ''sig-n1-0xAb'' ''n1'') demo_server"
    by (rule r[THEN conjunct2, THEN conjunct2, rule_format, of demo_ethers_other])
       (simp add: demo_other_agrees)
  with demo_connection have 3: "on_connection demo_ethers_other demo_now ''s1''
     (demo_auth_forged ''0xAB'' ''sig-n1-0xAb'' ''n1'') demo_server =
     (demo_server1, Authenticated ''0xab'',
      [ConsoleLog ''USER ONLINE:'' [''0xab''],
       BroadcastEmit ''s1'' ''presence:online'' (AddressPayload ''0xab''),
       SocketEmit ''s1'' ''presence:snapshot'' (SnapshotPayload [''0xab''])])"
    by simp
  have 4: "demo_auth ''0xAB'' ''sig-n1-0xAb'' ''n1'' \<noteq>
      demo_auth_forged ''0xAB'' ''sig-n1-0xAb'' ''n1''"
    by (simp add: demo_auth_def demo_auth_forged_def)
  have 5: "verifyTypedData demo_ethers_other
     \<lparr>td_name = ''Other App'', td_version = ''1'', td_chainId = 1\<rparr>
     (build_message demo_challenge ''n1'') ''forged'' \<noteq>
   verifyTypedData demo_ethers
     \<lparr>td_name = ''Other App'', td_version = ''1'', td_chainId = 1\<rparr>
     (build_message demo_challenge ''n1'') ''forged''"
    by (simp only: demo_other_differs) simp
  show ?thesis
    by (intro conjI) (rule fields 1 2 3 4 5)+
qed

text \<open>
  C7. When the presented nonce has a stored challenge whose \<^verbatim>\<open>expirationTime\<close> is at or
  before the clock (as ISO strings, the comparison of the handler), the attempt is
  closed and nothing is registered, whatever the signature. When the attempt reaches
  the expiry check (address and signature present, the address well-formed, the
  challenge not consumed), the failure is the expiry and the entry is deleted from the
  store.
\<close>

theorem expired_nonce_is_rejected_and_deleted:
  assumes "map_of (nonceChallenges st) nonce = Some ch" "expirationTime ch \<le> now"
    "auth_nonce p = Some nonce"
  shows "\<exists>st' e. on_connection eth now sid p st = (st', Closed e, [SocketDisconnect sid]) \<and>
           addressToSockets st' = addressToSockets st \<and> socketData st' = socketData st \<and>
           (\<not> consumed ch \<and> nonce \<noteq> [] \<and> truthy (auth_signature p) \<noteq> None \<and>
            (\<exists>raw. truthy (auth_address p) = Some raw \<and> getAddress eth raw \<noteq> None) \<longrightarrow>
              e = NonceExpired \<and>
              nonceChallenges st' = AList.delete nonce (nonceChallenges st) \<and>
              map_of (nonceChallenges st') nonce = None)"
  using assms
  by (auto simp: on_connection_def authenticate_def Let_def delete_conv' split: option.splits)

theorem expired_nonce_is_rejected_and_deleted_witness:
  "map_of (nonceChallenges demo_server) ''n1'' = Some demo_challenge \<and>
   expirationTime demo_challenge \<le> demo_late \<and>
   auth_nonce (demo_auth ''0xAB'' ''sig-n1-0xAb'' ''n1'') = Some ''n1'' \<and>
   \<not> consumed demo_challenge \<and>
   truthy (auth_signature (demo_auth ''0xAB'' ''sig-n1-0xAb'' ''n1'')) \<noteq> None \<and>
   truthy (auth_address (demo_auth ''0xAB'' ''sig-n1-0xAb'' ''n1'')) = Some ''0xAB'' \<and>
   getAddress demo_ethers ''0xAB'' \<noteq> None \<and>
   on_connection demo_ethers demo_late ''s1'' (demo_auth ''0xAB'' ''sig-n1-0xAb'' ''n1'')
     demo_server =
     (demo_server\<lparr>nonceChallenges := []\<rparr>, Closed NonceExpired, [SocketDisconnect ''s1''])"
  using expired_nonce_is_rejected_and_deleted
          [OF demo_store demo_is_late demo_auth_fields(3),
           of demo_ethers "''s1''" "''0xAB''" "''sig-n1-0xAb''"]
        demo_store demo_is_late demo_expired
  by (simp add: demo_auth_fields demo_challenge_def demo_ethers_def)

section \<open>Consumed nonces\<close>

lemma authenticate_consumed:
  assumes "is_consumed nonce nc" "authenticate eth now p nc = (nc', r)"
  shows "is_consumed nonce nc' \<and> (auth_nonce p = Some nonce \<longrightarrow>
     nc' = nc \<and>
     (r = Inl MissingFields \<or> r = Inl InvalidAddress \<or> r = Inl NonceAlreadyConsumed) \<and>
     (nonce \<noteq> [] \<and> truthy (auth_signature p) \<noteq> None \<and>
        (\<exists>raw. truthy (auth_address p) = Some raw \<and> getAddress eth raw \<noteq> None)
       \<longrightarrow> r = Inl NonceAlreadyConsumed))"
  using assms
  by (auto simp: authenticate_def is_consumed_def Let_def delete_conv' truthy_Some
      split: option.splits if_splits)

lemma on_connection_consumed:
  assumes "is_consumed nonce (nonceChallenges st)"
  shows "is_consumed nonce (nonceChallenges (fst (on_connection eth now sid p st)))"
proof -
  obtain nc r where a: "authenticate eth now p (nonceChallenges st) = (nc, r)"
    by (cases "authenticate eth now p (nonceChallenges st)")
  from authenticate_consumed[OF assms a] have c: "is_consumed nonce nc" by simp
  show ?thesis
  proof (cases r)
    case (Inl e)
    with a c show ?thesis by (simp add: on_connection_def)
  next
    case (Inr t)
    obtain addr n ch where t: "t = (addr, n, ch)" by (cases t)
    from c a Inr t show ?thesis
      by (auto simp: on_connection_def Let_def is_consumed_def update_conv'
          split: prod.splits option.splits)
  qed
qed

lemma on_nonce_request_consumed:
  assumes "is_consumed nonce nc" "nr_nonce r \<noteq> nonce"
  shows "is_consumed nonce (fst (on_nonce_request eth r nc))"
  using assms
  by (auto simp: on_nonce_request_def is_consumed_def update_conv'
      split: option.splits prod.splits)

lemma step_consumed:
  assumes "is_consumed nonce (nonceChallenges st)" "\<not> reissues nonce e"
  shows "is_consumed nonce (nonceChallenges (fst (step eth e st)))"
proof (cases e)
  case (NonceRequest r)
  with assms on_nonce_request_consumed[of nonce "nonceChallenges st" r eth]
  show ?thesis by (auto split: prod.splits)
next
  case (Connection sid p now)
  with on_connection_consumed[OF assms(1), of eth now sid p]
  show ?thesis by (auto split: prod.splits)
next
  case (DmSend sid payload ts)
  with assms show ?thesis by (auto split: option.splits sum.splits)
next
  case (Disconnect sid)
  with assms show ?thesis by (auto split: option.splits prod.splits)
qed

lemma run_consumed:
  assumes "is_consumed nonce (nonceChallenges st)" "list_all (\<lambda>e. \<not> reissues nonce e) evs"
  shows "is_consumed nonce (nonceChallenges (fst (run eth evs st)))"
  using assms
proof (induction evs arbitrary: st)
  case Nil
  then show ?case by simp
next
  case (Cons e es)
  from Cons.prems have "is_consumed nonce (nonceChallenges (fst (step eth e st)))"
    by (simp add: step_consumed)
  from Cons.IH[OF this] Cons.prems(2) show ?case
    by (auto split: prod.splits)
qed

lemma on_connection_marks:
  assumes "on_connection eth now sid p st = (st1, Authenticated addr, acts)"
    "auth_nonce p = Some nonce"
  shows "is_consumed nonce (nonceChallenges st1)"
proof -
  obtain nc r where a: "authenticate eth now p (nonceChallenges st) = (nc, r)"
    by (cases "authenticate eth now p (nonceChallenges st)")
  show ?thesis
  proof (cases r)
    case (Inl e)
    with a assms show ?thesis by (simp add: on_connection_def)
  next
    case (Inr t)
    obtain ad n ch where t: "t = (ad, n, ch)" by (cases t)
    from authenticate_Inr[OF a[unfolded Inr t]] assms(2) have "n = nonce"
      by (auto simp: truthy_Some split: if_splits)
    with a Inr t assms(1) show ?thesis
      by (auto simp: on_connection_def Let_def is_consumed_def update_conv' split: prod.splits)
  qed
qed

lemma on_connection_replay:
  assumes "is_consumed nonce (nonceChallenges st)" "auth_nonce p = Some nonce"
  shows "\<exists>e. on_connection eth now sid p st = (st, Closed e, [SocketDisconnect sid]) \<and>
            (e = MissingFields \<or> e = InvalidAddress \<or> e = NonceAlreadyConsumed) \<and>
            (nonce \<noteq> [] \<and> truthy (auth_signature p) \<noteq> None \<and>
              (\<exists>raw. truthy (auth_address p) = Some raw \<and> getAddress eth raw \<noteq> None)
             \<longrightarrow> e = NonceAlreadyConsumed)"
proof -
  obtain nc r where a: "authenticate eth now p (nonceChallenges st) = (nc, r)"
    by (cases "authenticate eth now p (nonceChallenges st)")
  from authenticate_consumed[OF assms(1) a] assms(2) a
  show ?thesis
    by (auto simp: on_connection_def)
qed

lemma demo_run:
  "run demo_ethers demo_events demo_server1 =
     (demo_server2,
      [SocketEmit ''s1'' ''dm:message''
         (DmPayload \<lparr>msg_from = ''0xab'', msg_to = ''0xEF01'', msg_body = JString ''hi'',
                     msg_ts = 1767225661000\<rparr>),
       HttpStatus 200,
       ConsoleLog ''USER OFFLINE:'' [''0xab''],
       IoEmit ''presence:offline'' (AddressPayload ''0xab'')])"
  by code_simp

lemma demo_events_fresh: "list_all (\<lambda>e. \<not> reissues ''n1'' e) demo_events"
  by (simp add: demo_events_def)

lemma demo_replay:
  "on_connection demo_ethers demo_now ''s2'' (demo_auth ''0xAB'' ''sig-n1-0xAb'' ''n1'')
     demo_server2 =
     (demo_server2, Closed NonceAlreadyConsumed, [SocketDisconnect ''s2''])"
  by code_simp

text \<open>
  C2. Once a connection has authenticated with a nonce, the stored challenge of that
  nonce is consumed, and it stays so through every later nonce request (none of which
  draws the same nonce again), connection, message and disconnect. Every later
  connection attempt that presents the nonce is closed without any change of state; when
  its address and signature are present and the address is well-formed, the check that
  closes it is the one for a consumed challenge.
\<close>

theorem nonce_redeemed_at_most_once:
  assumes "on_connection eth now sid p st = (st1, Authenticated addr, acts)"
      and "auth_nonce p = Some nonce"
      and "list_all (\<lambda>e. \<not> reissues nonce e) evs"
      and "run eth evs st1 = (st2, acts2)"
      and "auth_nonce p' = Some nonce"
  shows "is_consumed nonce (nonceChallenges st1) \<and> is_consumed nonce (nonceChallenges st2) \<and>
     (\<exists>e. on_connection eth now' sid' p' st2 = (st2, Closed e, [SocketDisconnect sid']) \<and>
            (e = MissingFields \<or> e = InvalidAddress \<or> e = NonceAlreadyConsumed) \<and>
            (nonce \<noteq> [] \<and> truthy (auth_signature p') \<noteq> None \<and>
              (\<exists>raw. truthy (auth_address p') = Some raw \<and> getAddress eth raw \<noteq> None)
             \<longrightarrow> e = NonceAlreadyConsumed))"
proof -
  have 1: "is_consumed nonce (nonceChallenges st1)"
    by (rule on_connection_marks[OF assms(1,2)])
  from run_consumed[OF 1 assms(3), of eth] assms(4)
  have 2: "is_consumed nonce (nonceChallenges st2)" by simp
  from 1 2 on_connection_replay[OF 2 assms(5)] show ?thesis by blast
qed

theorem nonce_redeemed_at_most_once_witness:
  "on_connection demo_ethers demo_now ''s1'' (demo_auth ''0xAB'' ''sig-n1-0xAb'' ''n1'')
     demo_server =
     (demo_server1, Authenticated ''0xab'',
      [ConsoleLog ''USER ONLINE:'' [''0xab''],
       BroadcastEmit ''s1'' ''presence:online'' (AddressPayload ''0xab''),
       SocketEmit ''s1'' ''presence:snapshot'' (SnapshotPayload [''0xab''])]) \<and>
   list_all (\<lambda>e. \<not> reissues ''n1'' e) demo_events \<and>
   fst (run demo_ethers demo_events demo_server1) = demo_server2 \<and>
   is_consumed ''n1'' (nonceChallenges demo_server1) \<and>
   is_consumed ''n1'' (nonceChallenges demo_server2) \<and>
   on_connection demo_ethers demo_now ''s2'' (demo_auth ''0xAB'' ''sig-n1-0xAb'' ''n1'')
     demo_server2 =
     (demo_server2, Closed NonceAlreadyConsumed, [SocketDisconnect ''s2''])"
  using nonce_redeemed_at_most_once
          [OF demo_connection demo_auth_fields(3) demo_events_fresh demo_run
              demo_auth_fields(3) [of "''0xAB''" "''sig-n1-0xAb''" "''n1''"],
           of demo_now "''s2''"]
        demo_connection demo_events_fresh demo_run demo_replay
  by simp

section \<open>The presence map\<close>

lemma list_all_update:
  "list_all P m \<Longrightarrow> P (k, v) \<Longrightarrow> list_all P (AList.update k v m)"
  by (induction m) auto

lemma list_all_delete: "list_all P m \<Longrightarrow> list_all P (AList.delete k m)"
  by (simp add: AList.delete_eq list_all_iff)

lemma reg_inv_lookup: "reg_inv m \<Longrightarrow> map_of m a = Some ids \<Longrightarrow> ids \<noteq> [] \<and> distinct ids"
  by (auto simp: reg_inv_def list_all_iff dest!: map_of_SomeD)

lemma reg_inv_update:
  "reg_inv m \<Longrightarrow> ids \<noteq> [] \<Longrightarrow> distinct ids \<Longrightarrow> reg_inv (AList.update a ids m)"
  by (simp add: reg_inv_def distinct_update list_all_update)

lemma reg_inv_delete: "reg_inv m \<Longrightarrow> reg_inv (AList.delete a m)"
  by (simp add: reg_inv_def distinct_delete list_all_delete)

lemma reg_inv_connections: "reg_inv m \<Longrightarrow> distinct (connections a m)"
  by (auto simp: connections_def dest: reg_inv_lookup split: option.splits)

lemma distinct_set_add: "distinct xs \<Longrightarrow> distinct (set_add x xs)"
  by (simp add: set_add_def)

lemma set_add_nonempty: "set_add x xs \<noteq> []"
  by (cases xs) (simp_all add: set_add_def)

lemma set_set_add: "set (set_add x xs) = insert x (set xs)"
  by (auto simp: set_add_def)

lemma fst_register:
  "fst (register a sid m) = AList.update a (set_add sid (connections a m)) m"
  by (simp add: register_def Let_def connections_def split: option.splits)

lemma snd_register:
  "snd (register a sid m) =
     (if map_of m a = None
      then [ConsoleLog ''USER ONLINE:'' [a],
            BroadcastEmit sid ''presence:online'' (AddressPayload a)]
      else [])"
  by (simp add: register_def Let_def)

lemma fst_on_disconnect:
  "fst (on_disconnect sid a m) =
     (case map_of m a of
        None \<Rightarrow> m
      | Some ids \<Rightarrow> if removeAll sid ids = [] then AList.delete a m
                    else AList.update a (removeAll sid ids) m)"
  by (simp add: on_disconnect_def deregister_def set_delete_def Let_def delete_update_same
      split: option.splits)

lemma snd_on_disconnect:
  "snd (on_disconnect sid a m) =
     (case map_of m a of
        None \<Rightarrow> []
      | Some ids \<Rightarrow> if removeAll sid ids = []
                    then [ConsoleLog ''USER OFFLINE:'' [a],
                          IoEmit ''presence:offline'' (AddressPayload a)]
                    else [])"
  by (simp add: on_disconnect_def deregister_def set_delete_def Let_def
      split: option.splits)

lemma reg_inv_register: "reg_inv m \<Longrightarrow> reg_inv (fst (register a sid m))"
  by (simp add: fst_register reg_inv_update set_add_nonempty distinct_set_add
      reg_inv_connections)

lemma reg_inv_on_disconnect: "reg_inv m \<Longrightarrow> reg_inv (fst (on_disconnect sid a m))"
proof (cases "map_of m a")
  case None
  assume "reg_inv m"
  with None show ?thesis by (simp add: fst_on_disconnect)
next
  case (Some ids)
  assume inv: "reg_inv m"
  from reg_inv_lookup[OF inv Some] have "distinct (removeAll sid ids)"
    by (simp add: distinct_removeAll)
  with inv Some show ?thesis
    by (simp add: fst_on_disconnect reg_inv_update reg_inv_delete)
qed

lemma reg_run_fst: "fst (reg_run (e # es) m) = fst (reg_run es (fst (reg_step e m)))"
  by (simp split: prod.splits)

lemma reg_run_snd:
  "snd (reg_run (e # es) m) = snd (reg_step e m) @ snd (reg_run es (fst (reg_step e m)))"
  by (simp split: prod.splits)

lemma reg_inv_step: "reg_inv m \<Longrightarrow> reg_inv (fst (reg_step e m))"
  by (cases e) (simp_all add: reg_inv_register reg_inv_on_disconnect)

lemma reg_inv_run: "reg_inv m \<Longrightarrow> reg_inv (fst (reg_run tr m))"
proof (induction tr arbitrary: m)
  case Nil
  then show ?case by simp
next
  case (Cons e es)
  from Cons.IH[OF reg_inv_step[OF Cons.prems, of e]] show ?case
    by (simp only: reg_run_fst)
qed

lemma connections_None: "map_of m a = None \<Longrightarrow> connections a m = []"
  by (simp add: connections_def)

lemma connections_Some: "map_of m a = Some ids \<Longrightarrow> connections a m = ids"
  by (simp add: connections_def)

lemma connections_update:
  "connections a (AList.update b ids m) = (if a = b then ids else connections a m)"
  by (simp add: connections_def update_conv')

lemma connections_delete:
  "connections a (AList.delete b m) = (if a = b then [] else connections a m)"
  by (simp add: connections_def delete_conv')

lemma removeAll_Nil_iff: "removeAll x xs = [] \<longleftrightarrow> set xs - {x} = {}"
proof -
  have "removeAll x xs = [] \<longleftrightarrow> set (removeAll x xs) = {}" by (simp only: set_empty)
  then show ?thesis by (simp only: set_removeAll)
qed

lemma connections_step:
  "set (connections a (fst (reg_step e m))) = spec_live_step a e (set (connections a m))"
proof (cases e)
  case (Register b sid)
  then show ?thesis
    by (simp add: fst_register connections_update set_set_add)
next
  case (Deregister b sid)
  show ?thesis
  proof (cases "map_of m b")
    case None
    with Deregister show ?thesis
      by (simp add: fst_on_disconnect connections_None)
  next
    case (Some ids)
    with Deregister show ?thesis
      by (simp add: fst_on_disconnect connections_update connections_delete
          connections_Some removeAll_Nil_iff)
  qed
qed

lemma connections_run:
  "set (connections a (fst (reg_run tr m))) = spec_live a (set (connections a m)) tr"
proof (induction tr arbitrary: m)
  case Nil
  then show ?case by simp
next
  case (Cons e es)
  from Cons.IH[of "fst (reg_step e m)"] connections_step[of a e m] show ?case
    by (simp only: reg_run_fst spec_live.simps)
qed

lemma connections_Nil: "reg_inv m \<Longrightarrow> connections a m = [] \<longleftrightarrow> map_of m a = None"
proof (cases "map_of m a")
  case None
  then show ?thesis by (simp add: connections_def)
next
  case (Some ids)
  assume "reg_inv m"
  from reg_inv_lookup[OF this Some] Some show ?thesis by (simp add: connections_def)
qed

lemma reg_inv_online: "reg_inv m \<Longrightarrow> a \<in> set (map fst m) \<longleftrightarrow> connections a m \<noteq> []"
proof -
  assume inv: "reg_inv m"
  have "a \<in> set (map fst m) \<longleftrightarrow> map_of m a \<noteq> None"
    by (simp add: map_of_eq_None_iff)
  with connections_Nil[OF inv, of a] show ?thesis by simp
qed

lemma online_step:
  assumes "reg_inv m"
  shows "length (filter (is_online a) (snd (reg_step e m))) =
     (if set (connections a m) = {} \<and> spec_live_step a e (set (connections a m)) \<noteq> {}
      then 1 else 0)"
proof (cases e)
  case (Register b sid)
  with connections_Nil[OF assms, of b] show ?thesis
    by (simp add: snd_register)
next
  case (Deregister b sid)
  then show ?thesis
    by (cases "map_of m b") (simp_all add: snd_on_disconnect)
qed

lemma offline_step:
  assumes "reg_inv m"
  shows "length (filter (is_offline a) (snd (reg_step e m))) =
     (if set (connections a m) \<noteq> {} \<and> spec_live_step a e (set (connections a m)) = {}
      then 1 else 0)"
proof (cases e)
  case (Register b sid)
  then show ?thesis
    by (simp add: snd_register)
next
  case (Deregister b sid)
  show ?thesis
  proof (cases "map_of m b")
    case None
    with Deregister show ?thesis
      by (cases "a = b") (simp_all add: snd_on_disconnect connections_None)
  next
    case (Some ids)
    from reg_inv_lookup[OF assms Some] have ne: "ids \<noteq> []" by simp
    with Deregister Some show ?thesis
      by (cases "a = b")
         (simp_all add: snd_on_disconnect connections_Some removeAll_Nil_iff)
  qed
qed

lemma online_run:
  assumes "reg_inv m"
  shows "length (filter (is_online a) (snd (reg_run tr m))) =
     spec_went_online a (set (connections a m)) tr"
  using assms
proof (induction tr arbitrary: m)
  case Nil
  then show ?case by simp
next
  case (Cons e es)
  note inv' = reg_inv_step[OF Cons.prems, of e]
  from Cons.IH[OF inv'] online_step[OF Cons.prems, of a e] connections_step[of a e m]
  show ?case
    by (simp only: reg_run_snd filter_append length_append spec_went_online.simps)
qed

lemma offline_run:
  assumes "reg_inv m"
  shows "length (filter (is_offline a) (snd (reg_run tr m))) =
     spec_went_offline a (set (connections a m)) tr"
  using assms
proof (induction tr arbitrary: m)
  case Nil
  then show ?case by simp
next
  case (Cons e es)
  note inv' = reg_inv_step[OF Cons.prems, of e]
  from Cons.IH[OF inv'] offline_step[OF Cons.prems, of a e] connections_step[of a e m]
  show ?case
    by (simp only: reg_run_snd filter_append length_append spec_went_offline.simps)
qed

subsection \<open>Events of distinct addresses do not interfere\<close>

lemma map_of_register:
  "map_of (fst (register a sid m)) = (map_of m)(a \<mapsto> set_add sid (connections a m))"
  by (simp add: fst_register update_conv')

lemma map_of_on_disconnect:
  "map_of (fst (on_disconnect sid a m)) b =
     (if b = a then
        (case map_of m a of None \<Rightarrow> None
         | Some ids \<Rightarrow> if removeAll sid ids = [] then None else Some (removeAll sid ids))
      else map_of m b)"
  by (cases "map_of m a") (simp_all add: fst_on_disconnect update_conv' delete_conv')

lemma step_other:
  assumes "\<not> concerns a e"
  shows "map_of (fst (reg_step e m)) a = map_of m a"
    and "filter (presence_of a) (snd (reg_step e m)) = []"
proof -
  show "map_of (fst (reg_step e m)) a = map_of m a"
    using assms by (cases e) (simp_all add: map_of_register map_of_on_disconnect)
  show "filter (presence_of a) (snd (reg_step e m)) = []"
  proof (cases e)
    case (Register b sid)
    with assms show ?thesis by (simp add: snd_register presence_of_def)
  next
    case (Deregister b sid)
    with assms show ?thesis
      by (cases "map_of m b") (simp_all add: snd_on_disconnect presence_of_def)
  qed
qed

lemma step_same:
  assumes "concerns a e" "map_of m a = map_of m' a"
  shows "map_of (fst (reg_step e m)) a = map_of (fst (reg_step e m')) a"
    and "snd (reg_step e m) = snd (reg_step e m')"
  using assms
  by (cases e; simp add: map_of_register map_of_on_disconnect snd_register snd_on_disconnect
        connections_def)+

lemma run_projection:
  assumes "map_of m a = map_of m' a"
  shows "map_of (fst (reg_run tr m)) a = map_of (fst (reg_run (filter (concerns a) tr) m')) a \<and>
     filter (presence_of a) (snd (reg_run tr m)) =
     filter (presence_of a) (snd (reg_run (filter (concerns a) tr) m'))"
  using assms
proof (induction tr arbitrary: m m')
  case Nil
  then show ?case by simp
next
  case (Cons e es)
  show ?case
  proof (cases "concerns a e")
    case True
    from step_same[OF True Cons.prems]
    have 1: "map_of (fst (reg_step e m)) a = map_of (fst (reg_step e m')) a"
      and 2: "snd (reg_step e m) = snd (reg_step e m')" by simp_all
    from Cons.IH[OF 1] 2 True show ?thesis
      by (simp only: filter.simps if_True reg_run_fst reg_run_snd filter_append)
  next
    case False
    from step_other[OF False, of m] Cons.prems
    have 1: "map_of (fst (reg_step e m)) a = map_of m' a"
      and 2: "filter (presence_of a) (snd (reg_step e m)) = []" by simp_all
    from Cons.IH[OF 1] 2 False show ?thesis
      by (simp only: filter.simps if_False reg_run_fst reg_run_snd filter_append) simp
  qed
qed

lemma went_online_registers:
  "spec_went_online a S (map (Register a) sids) = (if S = {} \<and> sids \<noteq> [] then 1 else 0)"
  by (induction sids arbitrary: S) auto

lemma went_offline_registers: "spec_went_offline a S (map (Register a) sids) = 0"
  by (induction sids arbitrary: S) auto

lemma went_offline_deregisters:
  "spec_went_offline a S (map (Deregister a) sids) =
     (if S \<noteq> {} \<and> S \<subseteq> set sids then 1 else 0)"
proof (induction sids arbitrary: S)
  case Nil
  then show ?case by simp
next
  case (Cons sid sids)
  have "S - {sid} \<subseteq> set sids \<longleftrightarrow> S \<subseteq> insert sid (set sids)" by auto
  with Cons.IH[of "S - {sid}"] show ?case by auto
qed

lemma went_online_deregisters: "spec_went_online a S (map (Deregister a) sids) = 0"
  by (induction sids arbitrary: S) auto

subsection \<open>The servers perform presence traces\<close>

lemma reg_run_append_fst:
  "fst (reg_run (xs @ ys) m) = fst (reg_run ys (fst (reg_run xs m)))"
  by (induction xs arbitrary: m) (simp_all add: reg_run_fst del: reg_run.simps(2))

lemma reg_run_append_snd:
  "snd (reg_run (xs @ ys) m) = snd (reg_run xs m) @ snd (reg_run ys (fst (reg_run xs m)))"
  by (induction xs arbitrary: m)
     (simp_all add: reg_run_fst reg_run_snd del: reg_run.simps(2))

lemma reg_run_single: "reg_run [e] m = reg_step e m"
  by (simp split: prod.splits)

lemma presence_of_simps:
  "\<not> presence_of a (SocketDisconnect sid)"
  "\<not> presence_of a (IoToEmit sid ev pl)"
  "\<not> presence_of a (SocketEmit sid ev pl)"
  "\<not> presence_of a (SocketJoin sid r)"
  "\<not> presence_of a (SocketLeave sid r)"
  "\<not> presence_of a (ConsoleLog t args)"
  "\<not> presence_of a (HttpStatus n)"
  "\<not> presence_of a (Uncaught e)"
  by (simp_all add: presence_of_def)

lemma on_dm_send_presence:
  "on_dm_send eth sid sender payload ts m = Inr acts \<Longrightarrow> filter (presence_of a) acts = []"
  by (auto simp: on_dm_send_def Let_def presence_of_simps filter_empty_conv
      split: option.splits if_splits js_value.splits)

lemma chat_on_dm_send_presence:
  "chat_on_dm_send js sid sender payload ts m = Inr acts \<Longrightarrow>
     filter (presence_of a) acts = []"
  by (auto simp: chat_on_dm_send_def Let_def presence_of_simps filter_empty_conv
      split: option.splits if_splits js_value.splits)

lemma on_nonce_request_presence:
  "on_nonce_request eth r nc = (nc', acts) \<Longrightarrow> filter (presence_of a) acts = []"
  by (auto simp: on_nonce_request_def presence_of_simps split: option.splits if_splits)

lemma leaveAll_presence:
  "leaveAll addr rs = (rs', acts) \<Longrightarrow> filter (presence_of a) acts = []"
  by (induction addr rs arbitrary: rs' acts rule: leaveAll.induct)
     (auto simp: presence_of_simps Let_def split: prod.splits if_splits)

lemma join_chat_presence:
  "join_chat sid addr chatId rs = (rs', acts) \<Longrightarrow> filter (presence_of a) acts = []"
  by (auto simp: join_chat_def Let_def presence_of_simps)

lemma leaveChat_presence:
  "leaveChat sid addr chatId rs = (rs', acts) \<Longrightarrow> filter (presence_of a) acts = []"
  by (auto simp: leaveChat_def Let_def presence_of_simps split: option.splits if_splits)

lemma on_connection_registry:
  "addressToSockets (fst (on_connection eth now sid p st)) =
     fst (reg_run (reg_events_of eth (Connection sid p now) st) (addressToSockets st))"
  "filter (presence_of a) (snd (snd (on_connection eth now sid p st))) =
     filter (presence_of a)
       (snd (reg_run (reg_events_of eth (Connection sid p now) st) (addressToSockets st)))"
proof -
  obtain nc r where au: "authenticate eth now p (nonceChallenges st) = (nc, r)"
    by (cases "authenticate eth now p (nonceChallenges st)")
  show "addressToSockets (fst (on_connection eth now sid p st)) =
     fst (reg_run (reg_events_of eth (Connection sid p now) st) (addressToSockets st))"
    using au
    by (cases r)
       (auto simp: on_connection_def Let_def reg_run_single split: prod.splits)
  show "filter (presence_of a) (snd (snd (on_connection eth now sid p st))) =
     filter (presence_of a)
       (snd (reg_run (reg_events_of eth (Connection sid p now) st) (addressToSockets st)))"
    using au
    by (cases r)
       (auto simp: on_connection_def Let_def reg_run_single snapshot_def presence_of_simps
          split: prod.splits)
qed

lemma step_registry:
  "addressToSockets (fst (step eth e st)) =
     fst (reg_run (reg_events_of eth e st) (addressToSockets st))"
  "filter (presence_of a) (snd (step eth e st)) =
     filter (presence_of a) (snd (reg_run (reg_events_of eth e st) (addressToSockets st)))"
proof -
  show "addressToSockets (fst (step eth e st)) =
     fst (reg_run (reg_events_of eth e st) (addressToSockets st))"
  proof (cases e)
    case (NonceRequest r)
    then show ?thesis by (simp split: prod.splits)
  next
    case (Connection sid p now)
    with on_connection_registry(1)[of eth now sid p st] show ?thesis
      by (auto split: prod.splits)
  next
    case (DmSend sid payload ts)
    then show ?thesis by (simp split: option.splits sum.splits)
  next
    case (Disconnect sid)
    then show ?thesis
      by (simp add: reg_run_single split: option.splits prod.splits)
  qed
  show "filter (presence_of a) (snd (step eth e st)) =
     filter (presence_of a) (snd (reg_run (reg_events_of eth e st) (addressToSockets st)))"
  proof (cases e)
    case (NonceRequest r)
    then show ?thesis
      by (auto split: prod.splits dest: on_nonce_request_presence)
  next
    case (Connection sid p now)
    with on_connection_registry(2)[where a=a and eth=eth and now=now and sid=sid and p=p
        and st=st] show ?thesis
      by (auto split: prod.splits)
  next
    case (DmSend sid payload ts)
    then show ?thesis
      by (auto simp: presence_of_simps split: option.splits sum.splits
          dest: on_dm_send_presence)
  next
    case (Disconnect sid)
    then show ?thesis
      by (simp add: reg_run_single split: option.splits prod.splits)
  qed
qed

lemma run_fst: "fst (run eth (e # es) st) = fst (run eth es (fst (step eth e st)))"
  by (simp split: prod.splits)

lemma run_snd:
  "snd (run eth (e # es) st) = snd (step eth e st) @ snd (run eth es (fst (step eth e st)))"
  by (simp split: prod.splits)

lemma run_registry:
  "addressToSockets (fst (run eth evs st)) =
     fst (reg_run (reg_trace eth evs st) (addressToSockets st)) \<and>
   filter (presence_of a) (snd (run eth evs st)) =
     filter (presence_of a) (snd (reg_run (reg_trace eth evs st) (addressToSockets st)))"
proof (induction evs arbitrary: st)
  case Nil
  then show ?case by simp
next
  case (Cons e es)
  from Cons.IH[of "fst (step eth e st)"] step_registry(1)[of eth e st]
    step_registry(2)[of a eth e st]
  show ?case
    by (simp only: run_fst run_snd reg_trace.simps reg_run_append_fst reg_run_append_snd
        filter_append)
qed

lemma chat_step_registry:
  "addressToSockets (fst (chat_step js e st)) =
     fst (reg_run (chat_reg_events_of js e st) (addressToSockets st))"
  "filter (presence_of a) (snd (chat_step js e st)) =
     filter (presence_of a) (snd (reg_run (chat_reg_events_of js e st) (addressToSockets st)))"
proof -
  show "addressToSockets (fst (chat_step js e st)) =
     fst (reg_run (chat_reg_events_of js e st) (addressToSockets st))"
  proof (cases e)
    case (ChatConnection sid raw)
    then show ?thesis
      by (simp add: chat_on_connection_def Let_def reg_run_single
          split: option.splits prod.splits)
  next
    case (ChatDmSend sid payload ts)
    then show ?thesis by (simp split: option.splits sum.splits)
  next
    case (JoinChat sid chatId)
    then show ?thesis by (simp split: option.splits prod.splits)
  next
    case (LeaveChat sid chatId)
    then show ?thesis by (simp split: option.splits prod.splits)
  next
    case (ChatDisconnect sid)
    then show ?thesis
      by (auto simp: chat_on_disconnect_def on_disconnect_def reg_run_single
          split: option.splits prod.splits)
  qed
  show "filter (presence_of a) (snd (chat_step js e st)) =
     filter (presence_of a) (snd (reg_run (chat_reg_events_of js e st) (addressToSockets st)))"
  proof (cases e)
    case (ChatConnection sid raw)
    then show ?thesis
      by (simp add: chat_on_connection_def Let_def reg_run_single snapshot_def
          presence_of_simps split: option.splits prod.splits)
  next
    case (ChatDmSend sid payload ts)
    then show ?thesis
      by (auto simp: presence_of_simps split: option.splits sum.splits
          dest: chat_on_dm_send_presence)
  next
    case (JoinChat sid chatId)
    then show ?thesis
      by (auto split: option.splits prod.splits dest: join_chat_presence)
  next
    case (LeaveChat sid chatId)
    then show ?thesis
      by (auto split: option.splits prod.splits dest: leaveChat_presence)
  next
    case (ChatDisconnect sid)
    then show ?thesis
      by (auto simp: chat_on_disconnect_def on_disconnect_def reg_run_single
          split: option.splits prod.splits dest: leaveAll_presence)
  qed
qed

lemma chat_run_fst: "fst (chat_run js (e # es) st) = fst (chat_run js es (fst (chat_step js e st)))"
  by (simp split: prod.splits)

lemma chat_run_snd:
  "snd (chat_run js (e # es) st) =
     snd (chat_step js e st) @ snd (chat_run js es (fst (chat_step js e st)))"
  by (simp split: prod.splits)

lemma chat_run_registry:
  "addressToSockets (fst (chat_run js evs st)) =
     fst (reg_run (chat_reg_trace js evs st) (addressToSockets st)) \<and>
   filter (presence_of a) (snd (chat_run js evs st)) =
     filter (presence_of a) (snd (reg_run (chat_reg_trace js evs st) (addressToSockets st)))"
proof (induction evs arbitrary: st)
  case Nil
  then show ?case by simp
next
  case (Cons e es)
  from Cons.IH[of "fst (chat_step js e st)"] chat_step_registry(1)[of js e st]
    chat_step_registry(2)[of a js e st]
  show ?case
    by (simp only: chat_run_fst chat_run_snd chat_reg_trace.simps reg_run_append_fst
        reg_run_append_snd filter_append)
qed

lemma reg_inv_Nil: "reg_inv []"
  by (simp add: reg_inv_def)

lemma registers_once:
  assumes "reg_inv m" "connections b m = []" "sids \<noteq> []"
  shows "length (filter (is_online b) (snd (reg_run (map (Register b) sids) m))) = 1"
  using online_run[OF assms(1), of b "map (Register b) sids"] assms(2,3)
  by (simp add: went_online_registers)

lemma deregisters_once:
  assumes "reg_inv m" "connections c m \<noteq> []" "set (connections c m) \<subseteq> set sids'"
  shows "length (filter (is_offline c) (snd (reg_run (map (Deregister c) sids') m))) = 1 \<and>
         map_of (fst (reg_run (map (Deregister c) sids') m)) c = None"
proof -
  have 1: "length (filter (is_offline c) (snd (reg_run (map (Deregister c) sids') m))) = 1"
    using offline_run[OF assms(1), of c "map (Deregister c) sids'"] assms(2,3)
    by (simp add: went_offline_deregisters)
  have "spec_live c S (map (Deregister c) xs) = S - set xs" for S xs
    by (induction xs arbitrary: S) auto
  with connections_run[of c "map (Deregister c) sids'" m] assms(3)
  have "set (connections c (fst (reg_run (map (Deregister c) sids') m))) = {}"
    by auto
  then have "connections c (fst (reg_run (map (Deregister c) sids') m)) = []"
    by (simp only: set_empty)
  with connections_Nil[OF reg_inv_run[OF assms(1)], of c "map (Deregister c) sids'"] 1
  show ?thesis by simp
qed

lemma demo_reg_run:
  "reg_run demo_reg_trace [] =
     ([(''0xcd'', [''s3''])],
      [ConsoleLog ''USER ONLINE:'' [''0xab''],
       BroadcastEmit ''s1'' ''presence:online'' (AddressPayload ''0xab''),
       ConsoleLog ''USER ONLINE:'' [''0xcd''],
       BroadcastEmit ''s3'' ''presence:online'' (AddressPayload ''0xcd''),
       ConsoleLog ''USER OFFLINE:'' [''0xab''],
       IoEmit ''presence:offline'' (AddressPayload ''0xab'')])"
  by code_simp

text \<open>
  C3. Every run of either server acts on the presence map as a trace of register and
  deregister events does, with the same presence broadcasts. After every such trace the
  map satisfies its invariant: an address is listed (online) iff its connection set is
  non-empty, no entry holds an empty set, and the connection set is the one the
  specification describes. The number of \<^verbatim>\<open>presence:online\<close> broadcasts about an
  address is the number of times its set went from empty to non-empty, the number of
  \<^verbatim>\<open>presence:offline\<close> broadcasts the number of times it went to empty. The broadcasts
  about an address are those of the trace restricted to its own events. Registering a
  non-empty list of connections for an offline address gives exactly one online
  broadcast; deregistering all connections of an online address gives exactly one
  offline broadcast and removes the entry.
\<close>

theorem session_registry_invariant:
  "addressToSockets (fst (run eth evs server_init)) =
     fst (reg_run (reg_trace eth evs server_init) []) \<and>
   filter (presence_of a) (snd (run eth evs server_init)) =
     filter (presence_of a) (snd (reg_run (reg_trace eth evs server_init) [])) \<and>
   addressToSockets (fst (chat_run js cevs chat_init)) =
     fst (reg_run (chat_reg_trace js cevs chat_init) []) \<and>
   filter (presence_of a) (snd (chat_run js cevs chat_init)) =
     filter (presence_of a) (snd (reg_run (chat_reg_trace js cevs chat_init) [])) \<and>
   reg_inv (fst (reg_run tr [])) \<and>
   (a \<in> set (map fst (fst (reg_run tr []))) \<longleftrightarrow> connections a (fst (reg_run tr [])) \<noteq> []) \<and>
   map_of (fst (reg_run tr [])) a \<noteq> Some [] \<and>
   set (connections a (fst (reg_run tr []))) = spec_live a {} tr \<and>
   length (filter (is_online a) (snd (reg_run tr []))) = spec_went_online a {} tr \<and>
   length (filter (is_offline a) (snd (reg_run tr []))) = spec_went_offline a {} tr \<and>
   filter (presence_of a) (snd (reg_run tr [])) =
     filter (presence_of a) (snd (reg_run (filter (concerns a) tr) [])) \<and>
   (connections b (fst (reg_run tr [])) = [] \<and> sids \<noteq> [] \<longrightarrow>
      length (filter (is_online b)
        (snd (reg_run (map (Register b) sids) (fst (reg_run tr []))))) = 1) \<and>
   (connections c (fst (reg_run tr [])) \<noteq> [] \<and>
    set (connections c (fst (reg_run tr []))) \<subseteq> set sids' \<longrightarrow>
      length (filter (is_offline c)
        (snd (reg_run (map (Deregister c) sids') (fst (reg_run tr []))))) = 1 \<and>
      map_of (fst (reg_run (map (Deregister c) sids') (fst (reg_run tr [])))) c = None)"
proof -
  note inv = reg_inv_run[OF reg_inv_Nil, of tr]
  have s1: "addressToSockets server_init = []" by (simp add: server_init_def)
  have s2: "addressToSockets chat_init = []" by (simp add: chat_init_def)
  have e: "connections a [] = []" by (simp add: connections_def)
  have ne: "map_of (fst (reg_run tr [])) a \<noteq> Some []"
    using reg_inv_lookup[OF inv, of a "[]"] by auto
  show ?thesis
    using run_registry[of eth evs server_init a] chat_run_registry[of js cevs chat_init a]
      inv reg_inv_online[OF inv, of a] ne connections_run[of a tr "[]"]
      online_run[OF reg_inv_Nil, of a tr] offline_run[OF reg_inv_Nil, of a tr]
      run_projection[of "[]" a "[]" tr]
      registers_once[OF inv, of b sids] deregisters_once[OF inv, of c sids']
    unfolding s1 s2 e
    by (intro conjI impI) simp_all
qed

theorem session_registry_invariant_witness:
  "connections ''0xab'' (fst (reg_run demo_reg_trace [])) = [] \<and> [''s4'', ''s5''] \<noteq> [] \<and>
   connections ''0xcd'' (fst (reg_run demo_reg_trace [])) \<noteq> [] \<and>
   set (connections ''0xcd'' (fst (reg_run demo_reg_trace []))) \<subseteq> set [''s3''] \<and>
   length (filter (is_online ''0xab'') (snd (reg_run demo_reg_trace []))) = 1 \<and>
   length (filter (is_offline ''0xab'') (snd (reg_run demo_reg_trace []))) = 1 \<and>
   length (filter (is_online ''0xab'')
        (snd (reg_run (map (Register ''0xab'') [''s4'', ''s5''])
               (fst (reg_run demo_reg_trace []))))) = 1 \<and>
   length (filter (is_offline ''0xcd'')
        (snd (reg_run (map (Deregister ''0xcd'') [''s3''])
               (fst (reg_run demo_reg_trace []))))) = 1"
  using session_registry_invariant[of demo_ethers "[]" "''0xab''" demo_js "[]" demo_reg_trace "''0xab''" "[''s4'', ''s5'']"
        "''0xcd''" "[''s3'']"]
  by (simp add: demo_reg_run connections_def)

section \<open>Direct messages\<close>





















section \<open>Rooms\<close>

lemma fst_join_chat:
  "fst (join_chat sid addr chatId rs) = AList.update chatId (set_add addr (members_of chatId rs)) rs"
  by (simp add: join_chat_def Let_def members_of_def split: option.splits)

lemma snd_join_chat:
  "snd (join_chat sid addr chatId rs) =
     SocketJoin sid chatId #
     (if length (members_of chatId rs) < 2 \<and> 2 \<le> length (set_add addr (members_of chatId rs))
      then [ConsoleLog ''CHAT ACTIVE:'' (chatId # set_add addr (members_of chatId rs))]
      else [])"
  by (simp add: join_chat_def Let_def members_of_def split: option.splits)

lemma members_of_update: "members_of chatId (AList.update chatId ms rs) = ms"
  by (simp add: members_of_def update_conv')

lemma set_add_member: "x \<in> set xs \<Longrightarrow> set_add x xs = xs"
  by (simp add: set_add_def)

lemma join_twice:
  assumes "join_chat sid addr chatId rs = (rs1, acts1)"
  shows "join_chat sid' addr chatId rs1 = (rs1, [SocketJoin sid' chatId])"
proof -
  from assms have rs1: "rs1 = AList.update chatId (set_add addr (members_of chatId rs)) rs"
    using fst_join_chat[of sid addr chatId rs] by simp
  have m: "members_of chatId rs1 = set_add addr (members_of chatId rs)"
    by (simp add: rs1 members_of_update)
  have a: "set_add addr (members_of chatId rs1) = members_of chatId rs1"
    by (rule set_add_member) (simp add: m set_set_add)
  have "fst (join_chat sid' addr chatId rs1) = rs1"
    by (simp add: fst_join_chat a) (simp add: rs1 members_of_update)
  moreover have "snd (join_chat sid' addr chatId rs1) = [SocketJoin sid' chatId]"
    by (simp add: snd_join_chat a)
  ultimately show ?thesis by (simp add: prod_eq_iff)
qed

lemma joins_fst: "fst (joins ((sid, addr) # js) chatId rs) = fst (joins js chatId (fst (join_chat sid addr chatId rs)))"
  by (simp split: prod.splits)

lemma joins_snd: "snd (joins ((sid, addr) # js) chatId rs) =
   snd (join_chat sid addr chatId rs) @ snd (joins js chatId (fst (join_chat sid addr chatId rs)))"
  by (simp split: prod.splits)

lemma length_set_add: "distinct xs \<Longrightarrow> length (set_add x xs) = card (insert x (set xs))"
  using distinct_card[of "set_add x xs"] by (simp add: distinct_set_add set_set_add)

lemma joins_active:
  assumes "distinct (members_of chatId rs)"
  shows "length (filter (is_active chatId) (snd (joins js chatId rs))) =
     (if card (set (members_of chatId rs)) < 2 \<and>
         2 \<le> card (set (members_of chatId rs) \<union> set (map snd js)) then 1 else 0)"
  using assms
proof (induction js arbitrary: rs)
  case Nil
  then show ?case by simp
next
  case (Cons j js)
  obtain sid addr where j: "j = (sid, addr)" by (cases j)
  let ?S = "set (members_of chatId rs)"
  let ?A = "set (map snd js)"
  let ?rs1 = "fst (join_chat sid addr chatId rs)"
  have m1: "members_of chatId ?rs1 = set_add addr (members_of chatId rs)"
    by (simp add: fst_join_chat members_of_update)
  have d1: "distinct (members_of chatId ?rs1)"
    by (simp add: m1 distinct_set_add Cons.prems)
  have l0: "length (members_of chatId rs) = card ?S"
    using distinct_card[OF Cons.prems] by simp
  have l1: "length (set_add addr (members_of chatId rs)) = card (insert addr ?S)"
    by (rule length_set_add[OF Cons.prems])
  have now: "length (filter (is_active chatId) (snd (join_chat sid addr chatId rs))) =
     (if card ?S < 2 \<and> 2 \<le> card (insert addr ?S) then 1 else 0)"
    by (simp add: snd_join_chat l0 l1)
  have rest: "length (filter (is_active chatId) (snd (joins js chatId ?rs1))) =
     (if card (insert addr ?S) < 2 \<and> 2 \<le> card (insert addr ?S \<union> ?A) then 1 else 0)"
    using Cons.IH[OF d1] by (simp add: m1 set_set_add)
  have mono1: "card ?S \<le> card (insert addr ?S)"
    by (rule card_mono) auto
  have mono2: "card (insert addr ?S) \<le> card (insert addr ?S \<union> ?A)"
    by (rule card_mono) auto
  have eq: "?S \<union> set (map snd (j # js)) = insert addr ?S \<union> ?A"
    by (auto simp: j)
  show ?case
    unfolding eq using now rest mono1 mono2
    by (simp only: j joins_snd filter_append length_append) auto
qed

lemma joins_fresh_room:
  assumes "map_of rs chatId = None"
  shows "length (filter (is_active chatId) (snd (joins js chatId rs))) =
     (if 2 \<le> card (set (map snd js)) then 1 else 0)"
proof -
  from assms have "members_of chatId rs = []" by (simp add: members_of_def)
  with joins_active[of chatId rs js] show ?thesis by simp
qed

lemma second_distinct:
  assumes "finite A"
  shows "(if 2 \<le> card (insert x A) then 1 else 0) =
     (if 2 \<le> card A then 1 else (0::nat)) + (if card A = 1 \<and> x \<notin> A then 1 else 0)"
  using assms by (auto simp: card_insert_if)

lemma join_member:
  assumes "map_of rs chatId = Some ms" "addr \<in> set ms"
  shows "join_chat sid addr chatId rs = (rs, [SocketJoin sid chatId])"
proof -
  from assms(1) have m: "members_of chatId rs = ms" by (simp add: members_of_def)
  have a: "set_add addr ms = ms" using assms(2) by (rule set_add_member)
  have "fst (join_chat sid addr chatId rs) = rs"
    by (simp add: fst_join_chat m a update_triv[OF assms(1)])
  moreover have "snd (join_chat sid addr chatId rs) = [SocketJoin sid chatId]"
    by (simp add: snd_join_chat m a)
  ultimately show ?thesis by (simp add: prod_eq_iff)
qed

lemma join_new:
  assumes "addr \<notin> set (members_of chatId rs)"
  shows "join_chat sid addr chatId rs =
     (AList.update chatId (members_of chatId rs @ [addr]) rs,
      SocketJoin sid chatId #
      (if length (members_of chatId rs) = 1
       then [ConsoleLog ''CHAT ACTIVE:'' (chatId # members_of chatId rs @ [addr])]
       else []))"
proof -
  have a: "set_add addr (members_of chatId rs) = members_of chatId rs @ [addr]"
    using assms by (simp add: set_add_def)
  have "length (members_of chatId rs) < 2 \<and> 2 \<le> Suc (length (members_of chatId rs)) \<longleftrightarrow>
        length (members_of chatId rs) = 1"
    by arith
  then show ?thesis
    by (simp add: prod_eq_iff fst_join_chat snd_join_chat a)
qed

lemma join_other_room:
  "c \<noteq> chatId \<Longrightarrow> map_of (fst (join_chat sid addr chatId rs)) c = map_of rs c"
  by (simp add: fst_join_chat update_conv')

lemma joins_members:
  assumes "distinct (members_of chatId rs)"
  shows "distinct (members_of chatId (fst (joins js chatId rs))) \<and>
         set (members_of chatId (fst (joins js chatId rs))) =
           set (members_of chatId rs) \<union> set (map snd js)"
  using assms
proof (induction js arbitrary: rs)
  case Nil
  then show ?case by simp
next
  case (Cons j js)
  obtain sid addr where j: "j = (sid, addr)" by (cases j)
  let ?rs1 = "fst (join_chat sid addr chatId rs)"
  have m1: "members_of chatId ?rs1 = set_add addr (members_of chatId rs)"
    by (simp add: fst_join_chat members_of_update)
  have d1: "distinct (members_of chatId ?rs1)"
    by (simp add: m1 distinct_set_add Cons.prems)
  from Cons.IH[OF d1] show ?case
    by (simp only: j joins_fst m1 set_set_add) auto
qed

text \<open>
  C9. A \<^verbatim>\<open>join_chat\<close> of an address that is already a member of the room, in whatever
  state, returns the rooms as they are and logs nothing; so does a join repeated after
  itself. A join of a new address appends it to the members of that room, leaves every
  other room alone, and logs \<^verbatim>\<open>CHAT ACTIVE:\<close> exactly when the room had one member: a
  join logs the line exactly when it takes the room from fewer than two members to two
  or more. After any sequence of joins the members of the room are, without repetition,
  the old members and the addresses that joined. Along a sequence of joins of a room
  that had no entry the line is logged once when at least two distinct addresses join and
  never otherwise, and the join that logs it is the one of the second distinct address.
\<close>

theorem join_idempotent_and_active_once:
  "(map_of rs chatId = Some ms \<and> addr \<in> set ms \<longrightarrow>
      join_chat sid addr chatId rs = (rs, [SocketJoin sid chatId])) \<and>
   (addr' \<notin> set (members_of chatId rs) \<longrightarrow>
      join_chat sid addr' chatId rs =
        (AList.update chatId (members_of chatId rs @ [addr']) rs,
         SocketJoin sid chatId #
         (if length (members_of chatId rs) = 1
          then [ConsoleLog ''CHAT ACTIVE:'' (chatId # members_of chatId rs @ [addr'])]
          else []))) \<and>
   (c \<noteq> chatId \<longrightarrow> map_of (fst (join_chat sid addr chatId rs)) c = map_of rs c) \<and>
   (join_chat sid addr chatId rs = (rs1, acts1) \<longrightarrow>
      join_chat sid' addr chatId rs1 = (rs1, [SocketJoin sid' chatId])) \<and>
   (list_ex (is_active chatId) (snd (join_chat sid addr chatId rs)) \<longleftrightarrow>
      length (members_of chatId rs) < 2 \<and>
      2 \<le> length (members_of chatId (fst (join_chat sid addr chatId rs)))) \<and>
   (distinct (members_of chatId rs) \<longrightarrow>
      distinct (members_of chatId (fst (joins js chatId rs))) \<and>
      set (members_of chatId (fst (joins js chatId rs))) =
        set (members_of chatId rs) \<union> set (map snd js)) \<and>
   (map_of rs chatId = None \<longrightarrow>
      length (filter (is_active chatId) (snd (joins js chatId rs))) =
        (if 2 \<le> card (set (map snd js)) then 1 else 0) \<and>
      length (filter (is_active chatId) (snd (joins (js @ [(sid, addr)]) chatId rs))) =
        length (filter (is_active chatId) (snd (joins js chatId rs))) +
        (if card (set (map snd js)) = 1 \<and> addr \<notin> set (map snd js) then 1 else 0))"
proof -
  have 1: "map_of rs chatId = Some ms \<and> addr \<in> set ms \<longrightarrow>
      join_chat sid addr chatId rs = (rs, [SocketJoin sid chatId])"
    using join_member by blast
  have 2: "addr' \<notin> set (members_of chatId rs) \<longrightarrow>
      join_chat sid addr' chatId rs =
        (AList.update chatId (members_of chatId rs @ [addr']) rs,
         SocketJoin sid chatId #
         (if length (members_of chatId rs) = 1
          then [ConsoleLog ''CHAT ACTIVE:'' (chatId # members_of chatId rs @ [addr'])]
          else []))"
    by (intro impI) (rule join_new)
  have 3: "c \<noteq> chatId \<longrightarrow> map_of (fst (join_chat sid addr chatId rs)) c = map_of rs c"
    by (intro impI) (rule join_other_room)
  have 4: "join_chat sid addr chatId rs = (rs1, acts1) \<longrightarrow>
      join_chat sid' addr chatId rs1 = (rs1, [SocketJoin sid' chatId])"
    using join_twice by blast
  have 5: "list_ex (is_active chatId) (snd (join_chat sid addr chatId rs)) \<longleftrightarrow>
      length (members_of chatId rs) < 2 \<and>
      2 \<le> length (members_of chatId (fst (join_chat sid addr chatId rs)))"
    by (simp add: snd_join_chat fst_join_chat members_of_update)
  have 6: "distinct (members_of chatId rs) \<longrightarrow>
      distinct (members_of chatId (fst (joins js chatId rs))) \<and>
      set (members_of chatId (fst (joins js chatId rs))) =
        set (members_of chatId rs) \<union> set (map snd js)"
    by (intro impI) (rule joins_members)
  have 7: "map_of rs chatId = None \<longrightarrow>
      length (filter (is_active chatId) (snd (joins js chatId rs))) =
        (if 2 \<le> card (set (map snd js)) then 1 else 0) \<and>
      length (filter (is_active chatId) (snd (joins (js @ [(sid, addr)]) chatId rs))) =
        length (filter (is_active chatId) (snd (joins js chatId rs))) +
        (if card (set (map snd js)) = 1 \<and> addr \<notin> set (map snd js) then 1 else 0)"
  proof (intro impI conjI)
    assume fresh: "map_of rs chatId = None"
    show "length (filter (is_active chatId) (snd (joins js chatId rs))) =
        (if 2 \<le> card (set (map snd js)) then 1 else 0)"
      by (rule joins_fresh_room[OF fresh])
    show "length (filter (is_active chatId) (snd (joins (js @ [(sid, addr)]) chatId rs))) =
        length (filter (is_active chatId) (snd (joins js chatId rs))) +
        (if card (set (map snd js)) = 1 \<and> addr \<notin> set (map snd js) then 1 else 0)"
      using joins_fresh_room[OF fresh, of "js @ [(sid, addr)]"]
        joins_fresh_room[OF fresh, of js] second_distinct[of "set (map snd js)" addr]
      by simp
  qed
  show ?thesis
    by (intro conjI) (rule 1 2 3 4 5 6 7)+
qed

lemma demo_rejoin:
  "join_chat ''s2'' ''0xa'' ''room'' demo_rooms = (demo_rooms, [SocketJoin ''s2'' ''room''])"
  by code_simp

lemma demo_join_third:
  "join_chat ''s2'' ''0xc'' ''room'' demo_rooms =
     ([(''room'', [''0xa'', ''0xb'', ''0xc''])], [SocketJoin ''s2'' ''room''])"
  by code_simp

lemma demo_joins:
  "joins demo_joiners ''room'' [] =
     ([(''room'', [''0xa'', ''0xb'', ''0xc''])],
      [SocketJoin ''s1'' ''room'', SocketJoin ''s3'' ''room'',
       ConsoleLog ''CHAT ACTIVE:'' [''room'', ''0xa'', ''0xb''],
       SocketJoin ''s2'' ''room'', SocketJoin ''s4'' ''room''])"
  by code_simp

lemma demo_rooms_facts:
  "map_of demo_rooms ''room'' = Some [''0xa'', ''0xb'']"
  "members_of ''room'' demo_rooms = [''0xa'', ''0xb'']"
  "map_of ([] :: rooms) ''room'' = None"
  "members_of ''room'' [] = []"
  by (simp_all add: demo_rooms_def members_of_def)

theorem join_idempotent_and_active_once_witness:
  "map_of demo_rooms ''room'' = Some [''0xa'', ''0xb''] \<and> ''0xa'' \<in> set [''0xa'', ''0xb''] \<and>
   join_chat ''s2'' ''0xa'' ''room'' demo_rooms = (demo_rooms, [SocketJoin ''s2'' ''room'']) \<and>
   ''0xc'' \<notin> set (members_of ''room'' demo_rooms) \<and>
   join_chat ''s2'' ''0xc'' ''room'' demo_rooms =
     ([(''room'', [''0xa'', ''0xb'', ''0xc''])], [SocketJoin ''s2'' ''room'']) \<and>
   map_of ([] :: rooms) ''room'' = None \<and> distinct (members_of ''room'' []) \<and>
   members_of ''room'' (fst (joins demo_joiners ''room'' [])) = [''0xa'', ''0xb'', ''0xc''] \<and>
   set (members_of ''room'' (fst (joins demo_joiners ''room'' []))) =
     set (map snd demo_joiners) \<and>
   2 \<le> card (set (map snd demo_joiners)) \<and>
   length (filter (is_active ''room'') (snd (joins demo_joiners ''room'' []))) = 1"
proof -
  note a = join_idempotent_and_active_once[of demo_rooms "''room''" "[''0xa'', ''0xb'']" "''0xa''" "''s2''" "''0xc''"]
  note b = join_idempotent_and_active_once[of "[]" "''room''" _ _ _ _ _ _ _ _ demo_joiners]
  have 1: "join_chat ''s2'' ''0xa'' ''room'' demo_rooms =
      (demo_rooms, [SocketJoin ''s2'' ''room''])"
    by (rule a[THEN conjunct1, rule_format]) (simp add: demo_rooms_facts)
  have 2: "''0xc'' \<notin> set (members_of ''room'' demo_rooms)"
    by (simp add: demo_rooms_facts)
  have 3: "join_chat ''s2'' ''0xc'' ''room'' demo_rooms =
     ([(''room'', [''0xa'', ''0xb'', ''0xc''])], [SocketJoin ''s2'' ''room''])"
    using a[THEN conjunct2, THEN conjunct1, rule_format, OF 2]
    by (simp add: demo_rooms_facts) (simp add: demo_rooms_def)
  have 4: "set (members_of ''room'' (fst (joins demo_joiners ''room'' []))) =
     set (map snd demo_joiners)"
    using b[THEN conjunct2, THEN conjunct2, THEN conjunct2, THEN conjunct2, THEN conjunct2,
        THEN conjunct1]
    by (simp add: demo_rooms_facts)
  have c: "snd ` set demo_joiners = {''0xa'', ''0xb'', ''0xc''}"
    by (auto simp: demo_joiners_def)
  have 5: "2 \<le> card (set (map snd demo_joiners))"
    by (simp add: c)
  have 6: "length (filter (is_active ''room'') (snd (joins demo_joiners ''room'' []))) = 1"
    using b[THEN conjunct2, THEN conjunct2, THEN conjunct2, THEN conjunct2, THEN conjunct2,
        THEN conjunct2, rule_format, THEN conjunct1]
    by (simp add: demo_rooms_facts c)
  have 7: "members_of ''room'' (fst (joins demo_joiners ''room'' [])) =
      [''0xa'', ''0xb'', ''0xc'']"
    by (simp add: demo_joins members_of_def)
  show ?thesis
    using 1 2 3 4 5 6 7 by (simp add: demo_rooms_facts)
qed

lemma demo_leave:
  "leaveChat ''s2'' ''0xb'' ''room'' [(''room'', [''0xa''])] =
     ([], [SocketLeave ''s2'' ''room'', ConsoleLog ''CHAT INACTIVE:'' [''room'']])"
  by code_simp

text \<open>
  C10. When a room has exactly one member and another address, which is not a member,
  sends \<^verbatim>\<open>leave_chat\<close> for it, the room entry is deleted and \<^verbatim>\<open>CHAT INACTIVE:\<close> is
  logged: the member that remains is evicted by the leave of a non-member.
\<close>

theorem leave_by_non_member_deletes_room:
  assumes "map_of rs chatId = Some [member]" "addr \<noteq> member"
  shows "leaveChat sid addr chatId rs =
           (AList.delete chatId rs,
            [SocketLeave sid chatId, ConsoleLog ''CHAT INACTIVE:'' [chatId]]) \<and>
         map_of (AList.delete chatId rs) chatId = None"
  using assms
  by (simp add: leaveChat_def set_delete_def Let_def delete_update_same delete_conv')

theorem leave_by_non_member_deletes_room_witness:
  "map_of [(''room'', [''0xa''])] ''room'' = Some [''0xa''] \<and> ''0xb'' \<noteq> ''0xa'' \<and>
   ''0xb'' \<notin> set [''0xa''] \<and>
   leaveChat ''s2'' ''0xb'' ''room'' [(''room'', [''0xa''])] =
     ([], [SocketLeave ''s2'' ''room'', ConsoleLog ''CHAT INACTIVE:'' [''room'']])"
  using leave_by_non_member_deletes_room
          [of "[(''room'', [''0xa''])]" "''room''" "''0xa''" "''0xb''" "''s2''"]
  by simp

lemma demo_chat_before:
  "fst (chat_run demo_js demo_chat_events chat_init) =
     \<lparr>addressToSockets = [(''0xa'', [''s1'', ''s2'']), (''0xb'', [''s3''])],
      socketData = [(''s1'', ''0xa''), (''s2'', ''0xa''), (''s3'', ''0xb'')],
      chatRoomMembers = [(''room'', [''0xa'', ''0xb''])]\<rparr>"
  by code_simp

lemma demo_chat_after:
  "fst (chat_run demo_js (demo_chat_events @ [ChatDisconnect ''s2'']) chat_init) =
     \<lparr>addressToSockets = [(''0xa'', [''s1'']), (''0xb'', [''s3''])],
      socketData = [(''s1'', ''0xa''), (''s3'', ''0xb'')],
      chatRoomMembers = []\<rparr>"
  by code_simp

text \<open>
  C4. The address \<^verbatim>\<open>0xa\<close> has two live connections and is a member of a room together
  with \<^verbatim>\<open>0xb\<close>. The disconnect of the second connection, which never joined the room,
  leaves \<^verbatim>\<open>0xa\<close> online on its first connection, yet the loop over the rooms removes it
  from the room, and the room, left with one member, is deleted.
\<close>

theorem second_device_disconnect_evicts_rooms:
  "connections ''0xa'' (addressToSockets (fst (chat_run demo_js demo_chat_events chat_init))) =
     [''s1'', ''s2''] \<and>
   members_of ''room'' (chatRoomMembers (fst (chat_run demo_js demo_chat_events chat_init))) =
     [''0xa'', ''0xb''] \<and>
   connections ''0xa''
     (addressToSockets (fst (chat_run demo_js (demo_chat_events @ [ChatDisconnect ''s2'']) chat_init))) =
     [''s1''] \<and>
   chatRoomMembers (fst (chat_run demo_js (demo_chat_events @ [ChatDisconnect ''s2'']) chat_init)) = []"
  by (simp add: demo_chat_before demo_chat_after connections_def members_of_def)

end
